theory Spec2Isabelle
  imports Complex_Main "HOL-Library.Sublist" "HOL-Library.Multiset"
begin

section \<open>JavaScript numbers and array reads\<close>

text \<open>
  The indicator code of \<^verbatim>\<open>analysisRoutes.js\<close> works on JavaScript numbers. A finite double
  is idealised as a real (\<open>Num\<close>); the three non-numbers the code can meet are kept as
  values of their own: \<open>NaN\<close>, \<open>Undefined\<close> (an array read out of range, or a property
  that an object does not have) and \<open>Null\<close>. Rounding, overflow and the infinities are
  outside this idealisation.
\<close>

datatype jsval = Num real | NaN | Undefined | Null

text \<open>ToNumber: \<open>undefined\<close> becomes NaN, \<open>null\<close> becomes 0. \<open>None\<close> stands for NaN.\<close>

fun toNumber :: "jsval \<Rightarrow> real option" where
  "toNumber (Num r) = Some r"
| "toNumber NaN = None"
| "toNumber Undefined = None"
| "toNumber Null = Some 0"

definition js_arith :: "(real \<Rightarrow> real \<Rightarrow> real) \<Rightarrow> jsval \<Rightarrow> jsval \<Rightarrow> jsval" where
  "js_arith f a b =
     (case toNumber a of
        None \<Rightarrow> NaN
      | Some x \<Rightarrow> (case toNumber b of None \<Rightarrow> NaN | Some y \<Rightarrow> Num (f x y)))"

definition js_add :: "jsval \<Rightarrow> jsval \<Rightarrow> jsval" where
  "js_add = js_arith (+)"

definition js_sub :: "jsval \<Rightarrow> jsval \<Rightarrow> jsval" where
  "js_sub = js_arith (-)"

definition js_mul :: "jsval \<Rightarrow> jsval \<Rightarrow> jsval" where
  "js_mul = js_arith (*)"

text \<open>
  Division: \<open>0 / 0\<close> is NaN. A non-zero number divided by zero is an infinity in
  JavaScript, which the idealisation does not have; it is mapped to NaN here. Every
  division of the modelled code divides by a positive constant or is guarded by
  \<^verbatim>\<open>avgLoss === 0\<close>.
\<close>

definition js_div :: "jsval \<Rightarrow> jsval \<Rightarrow> jsval" where
  "js_div a b =
     (case toNumber a of
        None \<Rightarrow> NaN
      | Some x \<Rightarrow> (case toNumber b of
                    None \<Rightarrow> NaN
                  | Some y \<Rightarrow> if y = 0 then NaN else Num (x / y)))"

text \<open>The relational operators: any comparison with NaN is false.\<close>

definition js_gt :: "jsval \<Rightarrow> jsval \<Rightarrow> bool" where
  "js_gt a b =
     (case toNumber a of
        None \<Rightarrow> False
      | Some x \<Rightarrow> (case toNumber b of None \<Rightarrow> False | Some y \<Rightarrow> y < x))"

definition js_lt :: "jsval \<Rightarrow> jsval \<Rightarrow> bool" where
  "js_lt a b = js_gt b a"

text \<open>\<^verbatim>\<open>arr[i]\<close>: a read outside the array gives \<open>undefined\<close>.\<close>

definition js_nth :: "jsval list \<Rightarrow> int \<Rightarrow> jsval" where
  "js_nth xs i = (if 0 \<le> i \<and> i < int (length xs) then xs ! nat i else Undefined)"

text \<open>\<^verbatim>\<open>arr.slice(a, b)\<close> for \<open>0 \<le> a \<le> b\<close>, the only way the indicators call it.\<close>

definition slice :: "nat \<Rightarrow> nat \<Rightarrow> 'a list \<Rightarrow> 'a list" where
  "slice a b xs = take (b - a) (drop a xs)"

text \<open>\<^verbatim>\<open>arr.reduce((a, b) => a + b, 0)\<close>\<close>

definition js_sum :: "jsval list \<Rightarrow> jsval" where
  "js_sum xs = foldl js_add (Num 0) xs"

section \<open>The indicator engine (\<^verbatim>\<open>calculateIndicators\<close>)\<close>

text \<open>
  Each \<^verbatim>\<open>calculateX\<close> returns \<^verbatim>\<open>null\<close> (\<open>None\<close>) on a series that is too short and an
  array otherwise. The period arguments are positive at every call site
  (20, 50, 12, 26, 14, 9).
\<close>

definition calculateSMA :: "jsval list \<Rightarrow> nat \<Rightarrow> jsval list option" where
  "calculateSMA data periods =
     (if length data < periods then None
      else Some (map (\<lambda>i. js_div (js_sum (slice (i + 1 - periods) (i + 1) data))
                                   (Num (real periods)))
                     [periods - 1 ..< length data]))"

text \<open>The loop of \<^verbatim>\<open>calculateEMA\<close>: \<^verbatim>\<open>ema = data[i] * k + ema * (1 - k)\<close>, pushed each round.\<close>

fun ema_loop :: "real \<Rightarrow> jsval \<Rightarrow> jsval list \<Rightarrow> jsval list" where
  "ema_loop k ema [] = []"
| "ema_loop k ema (x # xs) =
     (let ema' = js_add (js_mul x (Num k)) (js_mul ema (Num (1 - k)))
      in ema' # ema_loop k ema' xs)"

text \<open>The body of \<^verbatim>\<open>calculateEMA\<close> after its length guard.\<close>

definition ema_values :: "jsval list \<Rightarrow> nat \<Rightarrow> jsval list" where
  "ema_values data periods =
     (let k = 2 / (real periods + 1);
          ema = js_div (js_sum (slice 0 periods data)) (Num (real periods))
      in ema # ema_loop k ema (drop periods data))"

definition calculateEMA :: "jsval list \<Rightarrow> nat \<Rightarrow> jsval list option" where
  "calculateEMA data periods =
     (if length data < periods then None else Some (ema_values data periods))"

text \<open>
  One round of \<^verbatim>\<open>window.forEach\<close> in \<^verbatim>\<open>calculateRSI\<close>, on the pair (gains, losses):
  \<^verbatim>\<open>if (change > 0) gains += change; else losses -= change;\<close>
\<close>

definition rsi_accumulate :: "jsval \<times> jsval \<Rightarrow> jsval \<Rightarrow> jsval \<times> jsval" where
  "rsi_accumulate gl change =
     (if js_gt change (Num 0) then (js_add (fst gl) change, snd gl)
      else (fst gl, js_sub (snd gl) change))"

definition rsi_of_window :: "jsval list \<Rightarrow> nat \<Rightarrow> jsval" where
  "rsi_of_window window periods =
     (let gl = foldl rsi_accumulate (Num 0, Num 0) window;
          avgGain = js_div (fst gl) (Num (real periods));
          avgLoss = js_div (snd gl) (Num (real periods))
      in if avgLoss = Num 0 then Num 100
         else (let rs = js_div avgGain avgLoss
               in js_sub (Num 100) (js_div (Num 100) (js_add (Num 1) rs))))"

definition price_changes :: "jsval list \<Rightarrow> jsval list" where
  "price_changes data = map (\<lambda>i. js_sub (data ! i) (data ! (i - 1))) [1 ..< length data]"

definition calculateRSI :: "jsval list \<Rightarrow> nat \<Rightarrow> jsval list option" where
  "calculateRSI data periods =
     (if length data \<le> periods then None
      else (let changes = price_changes data
            in Some (map (\<lambda>i. rsi_of_window (slice (i - periods) i changes) periods)
                         [periods ..< length changes])))"

record macd_lines =
  macdLine :: "jsval list"
  signalLine :: "jsval list"
  histogram :: "jsval list"

datatype js_error = TypeError

text \<open>
  \<^verbatim>\<open>calculateMACD\<close>. After the guard both EMAs are arrays. The signal line is
  \<^verbatim>\<open>calculateEMA(macdLine, signal)\<close>; were it \<^verbatim>\<open>null\<close>, reading its \<^verbatim>\<open>length\<close> would
  throw a TypeError.
\<close>

definition macd_line :: "jsval list \<Rightarrow> jsval list \<Rightarrow> jsval list" where
  "macd_line emaFast emaSlow =
     (let d = int (length emaSlow) - int (length emaFast)
      in map (\<lambda>i. js_sub (emaFast ! i) (js_nth emaSlow (int i - d)))
             (filter (\<lambda>i. d \<le> int i) [0 ..< length emaFast]))"

definition macd_histogram :: "jsval list \<Rightarrow> jsval list \<Rightarrow> jsval list" where
  "macd_histogram ml sl =
     map (\<lambda>i. js_sub (js_nth ml (int i + (int (length ml) - int (length sl)))) (sl ! i))
         [0 ..< length sl]"

definition calculateMACD :: "jsval list \<Rightarrow> nat \<Rightarrow> nat \<Rightarrow> nat \<Rightarrow> js_error + macd_lines option" where
  "calculateMACD data fast slow signal =
     (if length data < max fast slow + signal then Inr None
      else (let emaFast = ema_values data fast;
                emaSlow = ema_values data slow;
                ml = macd_line emaFast emaSlow
            in case calculateEMA ml signal of
                 None \<Rightarrow> Inl TypeError
               | Some sl \<Rightarrow>
                   Inr (Some \<lparr>macdLine = ml, signalLine = sl, histogram = macd_histogram ml sl\<rparr>)))"

text \<open>\<^verbatim>\<open>getLatestValue = (arr) => arr ? arr[arr.length - 1] : null\<close>\<close>

definition getLatestValue :: "jsval list option \<Rightarrow> jsval" where
  "getLatestValue arr =
     (case arr of None \<Rightarrow> Null | Some xs \<Rightarrow> js_nth xs (int (length xs) - 1))"

section \<open>Bars\<close>

text \<open>
  One OHLCV document of the \<^verbatim>\<open>MarketData\<close> collection. The timestamp is a \<^verbatim>\<open>Date\<close>, kept
  as its millisecond count. The fields \<^verbatim>\<open>open\<close> and \<^verbatim>\<open>close\<close> are \<open>bopen\<close> and \<open>bclose\<close> here
  (\<open>open\<close> is a constant of HOL).
\<close>

record bar =
  symbol :: string
  timestamp :: int
  bopen :: real
  high :: real
  low :: real
  bclose :: real
  volume :: real
  source :: string

record macd_latest =
  line :: jsval
  signal :: jsval
  histogram_latest :: jsval

record indicators =
  sma20 :: jsval
  sma50 :: jsval
  ema12 :: jsval
  ema26 :: jsval
  rsi :: jsval
  macd :: macd_latest

text \<open>
  \<^verbatim>\<open>calculateIndicators\<close>: \<open>Inr None\<close> is the empty object returned for an empty series.
  \<^verbatim>\<open>macd?.macdLine\<close> is \<^verbatim>\<open>undefined\<close> when \<^verbatim>\<open>macd\<close> is \<^verbatim>\<open>null\<close>, and \<^verbatim>\<open>getLatestValue\<close>
  turns that into \<^verbatim>\<open>null\<close>.
\<close>

definition calculateIndicators :: "bar list \<Rightarrow> js_error + indicators option" where
  "calculateIndicators marketData =
     (if marketData = [] then Inr None
      else (let closes = map (\<lambda>d. Num (bclose d)) marketData
            in case calculateMACD closes 12 26 9 of
                 Inl e \<Rightarrow> Inl e
               | Inr m \<Rightarrow>
                   Inr (Some \<lparr>sma20 = getLatestValue (calculateSMA closes 20),
                              sma50 = getLatestValue (calculateSMA closes 50),
                              ema12 = getLatestValue (calculateEMA closes 12),
                              ema26 = getLatestValue (calculateEMA closes 26),
                              rsi = getLatestValue (calculateRSI closes 14),
                              macd = \<lparr>line = getLatestValue (map_option macdLine m),
                                      signal = getLatestValue (map_option signalLine m),
                                      histogram_latest = getLatestValue (map_option histogram m)\<rparr>\<rparr>)))"

text \<open>The period-over-period differences of a series of reals, as \<^verbatim>\<open>calculateRSI\<close> forms them.\<close>

definition deltas :: "real list \<Rightarrow> real list" where
  "deltas xs = map (\<lambda>i. xs ! i - xs ! (i - 1)) [1 ..< length xs]"

section \<open>The series generator (\<^verbatim>\<open>marketDataService.js\<close>)\<close>

definition basePrice :: "string \<Rightarrow> real" where
  "basePrice smb =
     (if smb = ''SPY'' then 450
      else if smb = ''AAPL'' then 180
      else if smb = ''MSFT'' then 350
      else if smb = ''GOOGL'' then 140
      else if smb = ''AMZN'' then 175
      else 100)"

text \<open>
  One round of the loop that \<^verbatim>\<open>generateSampleData\<close> and \<^verbatim>\<open>generateSimulatedData\<close> share;
  the two differ in \<^verbatim>\<open>volatilityFactor\<close> only. \<open>r1\<close> to \<open>r5\<close> are the results of the five
  calls of \<^verbatim>\<open>Math.random()\<close>, in the order the round makes them.
\<close>

definition backfill_bar ::
  "real \<Rightarrow> string \<Rightarrow> int \<Rightarrow> nat \<Rightarrow> nat \<Rightarrow> real \<Rightarrow> real \<Rightarrow> real \<Rightarrow> real \<Rightarrow> real \<Rightarrow> bar" where
  "backfill_bar volatilityFactor smb now numPoints i r1 r2 r3 r4 r5 =
     (let dayFactor = sin (real i / 30) * 3;
          hourFactor = sin (real i / 8) * 2;
          minuteFactor = (r1 - 0.5) * 1.5;
          noise = dayFactor + hourFactor + minuteFactor;
          cl = basePrice smb * (1 + noise * volatilityFactor);
          rng = cl * 0.002;
          op = cl - (r2 - 0.5) * rng;
          hi = max cl op + r3 * rng;
          lo = min cl op - r4 * rng
      in \<lparr>symbol = smb,
          timestamp = now - (int numPoints - int i) * 5 * 60000,
          bopen = op, high = hi, low = lo, bclose = cl,
          volume = of_int \<lfloor>50000 + r5 * 150000\<rfloor>,
          source = ''SIMULATED''\<rparr>)"

text \<open>
  The whole loop: round \<open>i\<close> draws the random numbers \<open>k + 5 i\<close> to \<open>k + 5 i + 4\<close> of the
  stream, where \<open>k\<close> counts the draws made before the loop.
\<close>

definition backfill_bars ::
  "real \<Rightarrow> string \<Rightarrow> int \<Rightarrow> nat \<Rightarrow> (nat \<Rightarrow> real) \<Rightarrow> nat \<Rightarrow> bar list" where
  "backfill_bars volatilityFactor smb now numPoints rand k =
     map (\<lambda>i. backfill_bar volatilityFactor smb now numPoints i
                  (rand (k + 5 * i)) (rand (k + 5 * i + 1)) (rand (k + 5 * i + 2))
                  (rand (k + 5 * i + 3)) (rand (k + 5 * i + 4)))
         [0 ..< numPoints]"

text \<open>\<^verbatim>\<open>dailyVol * Math.sqrt(1/288)\<close> in \<^verbatim>\<open>generateSampleData\<close>; the constant of \<^verbatim>\<open>generateSimulatedData\<close>.\<close>

definition sampleVolatility :: real where
  "sampleVolatility = 0.015 * sqrt (1 / 288)"

definition simulatedVolatility :: real where
  "simulatedVolatility = 0.001"

text \<open>\<^verbatim>\<open>generateHistoricalSimulation\<close>: the price is carried from round to round.\<close>

definition intervalDrift :: real where
  "intervalDrift = 0.08 / (252 * 78)"

definition intervalVol :: real where
  "intervalVol = 0.15 / sqrt (252 * 78)"

fun historical_loop ::
  "string \<Rightarrow> int \<Rightarrow> nat \<Rightarrow> (nat \<Rightarrow> real) \<Rightarrow> nat \<Rightarrow> real \<Rightarrow> nat \<Rightarrow> nat \<Rightarrow> bar list" where
  "historical_loop smb now numPoints rand k currentPrice i 0 = []"
| "historical_loop smb now numPoints rand k currentPrice i (Suc m) =
     (let diffusion = intervalVol * (rand k * 2 - 1);
          price = currentPrice * (1 + intervalDrift + diffusion);
          rng = price * 0.002;
          op = price - (rand (k + 1) - 0.5) * rng;
          cl = price;
          hi = max op cl + rand (k + 2) * rng;
          lo = min op cl - rand (k + 3) * rng
      in \<lparr>symbol = smb,
          timestamp = now - (int numPoints - int i) * 5 * 60000,
          bopen = op, high = hi, low = lo, bclose = cl,
          volume = of_int \<lfloor>50000 + rand (k + 4) * 150000\<rfloor>,
          source = ''SIMULATED''\<rparr>
         # historical_loop smb now numPoints rand (k + 5) price (Suc i) m)"

definition generateHistoricalSimulation ::
  "string \<Rightarrow> nat \<Rightarrow> int \<Rightarrow> (nat \<Rightarrow> real) \<Rightarrow> nat \<Rightarrow> bar list" where
  "generateHistoricalSimulation smb numPoints now rand k =
     historical_loop smb now numPoints rand k (basePrice smb) 0 numPoints"

text \<open>
  The new point that \<^verbatim>\<open>fetchMarketData\<close> builds from the latest stored bar. The elapsed time
  is \<^verbatim>\<open>(now - new Date(latestData.timestamp)) / (1000 * 60)\<close>. When it is negative,
  \<^verbatim>\<open>Math.sqrt\<close> gives NaN and with it the high, low and close of the point are NaN: that
  point is \<open>None\<close> here.
\<close>

definition newDataPoint :: "string \<Rightarrow> int \<Rightarrow> bar \<Rightarrow> real \<Rightarrow> real \<Rightarrow> real \<Rightarrow> real \<Rightarrow> bar option" where
  "newDataPoint smb now latestData r1 r2 r3 r4 =
     (let prevClose = bclose latestData;
          timeElapsed = real_of_int (now - timestamp latestData) / (1000 * 60)
      in if timeElapsed < 0 then None
         else (let volatilityFactor = 0.0007 * sqrt timeElapsed;
                   change = prevClose * (r1 - 0.5) * 2 * volatilityFactor;
                   newClose = prevClose + change;
                   rng = prevClose * 0.001
               in Some \<lparr>symbol = smb, timestamp = now, bopen = prevClose,
                         high = max prevClose newClose + r2 * rng,
                         low = min prevClose newClose - r3 * rng,
                         bclose = newClose,
                         volume = of_int \<lfloor>50000 + r4 * 150000\<rfloor>,
                         source = ''SIMULATED''\<rparr>))"

text \<open>The invariants of a bar, as the data model states them.\<close>

definition bar_invariants :: "bar \<Rightarrow> bool" where
  "bar_invariants b =
     (max (bopen b) (bclose b) \<le> high b \<and> low b \<le> min (bopen b) (bclose b) \<and>
      0 < bopen b \<and> 0 < high b \<and> 0 < low b \<and> 0 < bclose b \<and> 0 \<le> volume b)"

section \<open>The \<^verbatim>\<open>MarketData\<close> collection\<close>

text \<open>
  The collection is the list of its documents. The schema of \<^verbatim>\<open>marketDataService.js\<close>
  gives the setters (\<^verbatim>\<open>trim\<close>, \<^verbatim>\<open>uppercase\<close>), the validators of each path, the
  \<^verbatim>\<open>pre('save')\<close> hook and the unique index on (symbol, timestamp). Symbols are taken
  to be ASCII.
\<close>

datatype store_error = ValidationError | PreSaveError | DuplicateKeyError

definition is_whitespace :: "char \<Rightarrow> bool" where
  "is_whitespace c = (of_char c \<in> {9, 10, 11, 12, 13, 32 :: nat})"

definition js_trim :: "string \<Rightarrow> string" where
  "js_trim s = rev (dropWhile is_whitespace (rev (dropWhile is_whitespace s)))"

definition is_upper :: "char \<Rightarrow> bool" where
  "is_upper c = (65 \<le> (of_char c :: nat) \<and> (of_char c :: nat) \<le> 90)"

definition is_lower :: "char \<Rightarrow> bool" where
  "is_lower c = (97 \<le> (of_char c :: nat) \<and> (of_char c :: nat) \<le> 122)"

definition is_digit :: "char \<Rightarrow> bool" where
  "is_digit c = (48 \<le> (of_char c :: nat) \<and> (of_char c :: nat) \<le> 57)"

definition js_toUpperCase :: "string \<Rightarrow> string" where
  "js_toUpperCase s = map (\<lambda>c. if is_lower c then char_of (of_char c - 32 :: nat) else c) s"

text \<open>\<^verbatim>\<open>/^[A-Z0-9.]{1,10}$/\<close>, the \<^verbatim>\<open>match\<close> of the schema's symbol path.\<close>

definition schema_symbol_match :: "string \<Rightarrow> bool" where
  "schema_symbol_match s =
     (1 \<le> length s \<and> length s \<le> 10 \<and>
      list_all (\<lambda>c. is_upper c \<or> is_digit c \<or> c = CHR ''.'') s)"

definition apply_setters :: "bar \<Rightarrow> bar" where
  "apply_setters d = d\<lparr>symbol := js_toUpperCase (js_trim (symbol d))\<rparr>"

text \<open>
  The validators, path by path: symbol \<^verbatim>\<open>match\<close>; open \<^verbatim>\<open>v > 0\<close>; high \<^verbatim>\<open>v >= this.open\<close>;
  low \<^verbatim>\<open>v <= this.open\<close>; close \<^verbatim>\<open>v > 0\<close>; volume \<^verbatim>\<open>v >= 0\<close>; source \<^verbatim>\<open>enum\<close>.
\<close>

definition schema_valid :: "bar \<Rightarrow> bool" where
  "schema_valid d =
     (schema_symbol_match (symbol d) \<and>
      0 < bopen d \<and>
      bopen d \<le> high d \<and>
      low d \<le> bopen d \<and>
      0 < bclose d \<and>
      0 \<le> volume d \<and>
      source d \<in> set [''SIMULATED'', ''ALPHA_VANTAGE'', ''YAHOO'', ''IEX'', ''CUSTOM''])"

definition same_key :: "bar \<Rightarrow> bar \<Rightarrow> bool" where
  "same_key a b = (symbol a = symbol b \<and> timestamp a = timestamp b)"

text \<open>
  \<^verbatim>\<open>new MarketData(point).save()\<close>: validation, then the \<^verbatim>\<open>pre('save')\<close> hook
  (\<^verbatim>\<open>this.high < this.low\<close>), then the insert under the unique index.
\<close>

definition save :: "bar list \<Rightarrow> bar \<Rightarrow> store_error + bar list" where
  "save ds b =
     (let d = apply_setters b
      in if \<not> schema_valid d then Inl ValidationError
         else if high d < low d then Inl PreSaveError
         else if list_ex (same_key d) ds then Inl DuplicateKeyError
         else Inr (ds @ [d]))"

text \<open>
  \<^verbatim>\<open>MarketData.insertMany(docs, { ordered: false })\<close>: a document that fails validation is
  left out, a duplicate key is left out and reported after the batch (error code 11000,
  the second component), every other document is inserted.
\<close>

definition insert_unordered :: "bar list \<times> bool \<Rightarrow> bar \<Rightarrow> bar list \<times> bool" where
  "insert_unordered acc b =
     (let d = apply_setters b
      in if \<not> schema_valid d then acc
         else if list_ex (same_key d) (fst acc) then (fst acc, True)
         else (fst acc @ [d], snd acc))"

definition insertMany :: "bar list \<Rightarrow> bar list \<Rightarrow> bar list \<times> bool" where
  "insertMany ds new = foldl insert_unordered (ds, False) new"

text \<open>
  \<^verbatim>\<open>find({ symbol })\<close> and \<^verbatim>\<open>find({ symbol }).sort({ timestamp: -1 }).limit(n)\<close>. The
  filter is cast through the schema, so the symbol of the query passes the same setters
  (\<^verbatim>\<open>trim\<close>, \<^verbatim>\<open>uppercase\<close>) as a stored symbol before it is compared.
\<close>

definition cast_symbol :: "string \<Rightarrow> string" where
  "cast_symbol s = js_toUpperCase (js_trim s)"

definition find_symbol :: "bar list \<Rightarrow> string \<Rightarrow> bar list" where
  "find_symbol ds s = filter (\<lambda>d. symbol d = cast_symbol s) ds"

definition find_latest :: "bar list \<Rightarrow> string \<Rightarrow> nat \<Rightarrow> bar list" where
  "find_latest ds s n = take n (rev (sort_key timestamp (find_symbol ds s)))"

section \<open>The market data service\<close>

text \<open>
  What the service reads from outside: the stream of \<^verbatim>\<open>Math.random()\<close> results, the
  readings of \<^verbatim>\<open>new Date()\<close>, and for each operation sent to the database whether it is
  rejected (the dependency is down). The world holds the collection and counts the draws,
  the clock readings and the database operations made so far; \<open>store_errors\<close> counts the
  rejected operations and \<open>simulated_calls\<close> the calls of \<^verbatim>\<open>generateSimulatedData\<close>.
\<close>

record env =
  rnd :: "nat \<Rightarrow> real"
  clock :: "nat \<Rightarrow> int"
  store_fails :: "nat \<Rightarrow> bool"

record world =
  docs :: "bar list"
  rnd_calls :: nat
  clock_calls :: nat
  store_calls :: nat
  store_errors :: nat
  simulated_calls :: nat

datatype completion = Resolved | Thrown

text \<open>\<^verbatim>\<open>!n || n <= 0 || n > 1000\<close>\<close>

definition invalid_count :: "int \<Rightarrow> bool" where
  "invalid_count n = (n = 0 \<or> n \<le> 0 \<or> 1000 < n)"

text \<open>A database operation that is rejected: the call is counted and so is the error.\<close>

definition store_rejects :: "world \<Rightarrow> world" where
  "store_rejects w = w\<lparr>store_calls := Suc (store_calls w), store_errors := Suc (store_errors w)\<rparr>"

text \<open>
  \<^verbatim>\<open>generateSimulatedData\<close>: its \<^verbatim>\<open>catch\<close> returns the empty array when the symbol or the
  count is refused.
\<close>

definition generateSimulatedData :: "env \<Rightarrow> string \<Rightarrow> int \<Rightarrow> world \<Rightarrow> bar list \<times> world" where
  "generateSimulatedData e s numPoints w =
     (let w0 = w\<lparr>simulated_calls := Suc (simulated_calls w)\<rparr>
      in if s = [] \<or> invalid_count numPoints then ([], w0)
         else (backfill_bars simulatedVolatility s (clock e (clock_calls w0)) (nat numPoints)
                 (rnd e) (rnd_calls w0),
               w0\<lparr>clock_calls := Suc (clock_calls w0),
                   rnd_calls := rnd_calls w0 + 5 * nat numPoints\<rparr>))"

text \<open>
  \<^verbatim>\<open>generateSampleData\<close>: every failure is rethrown; a duplicate-key error of
  \<^verbatim>\<open>insertMany\<close> is only logged.
\<close>

definition generateSampleData :: "env \<Rightarrow> string \<Rightarrow> int \<Rightarrow> world \<Rightarrow> completion \<times> world" where
  "generateSampleData e s numPoints w =
     (if s = [] \<or> invalid_count numPoints then (Thrown, w)
      else if store_fails e (store_calls w) then (Thrown, store_rejects w)
      else (let w1 = w\<lparr>store_calls := Suc (store_calls w)\<rparr>
            in if find_symbol (docs w1) s \<noteq> [] then (Resolved, w1)
               else (let now = clock e (clock_calls w1);
                         marketData = backfill_bars sampleVolatility s now (nat numPoints)
                                        (rnd e) (rnd_calls w1);
                         w2 = w1\<lparr>clock_calls := Suc (clock_calls w1),
                                 rnd_calls := rnd_calls w1 + 5 * nat numPoints\<rparr>
                     in if store_fails e (store_calls w2) then (Thrown, store_rejects w2)
                        else (Resolved,
                              w2\<lparr>docs := fst (insertMany (docs w2) marketData),
                                 store_calls := Suc (store_calls w2)\<rparr>))))"

text \<open>
  \<^verbatim>\<open>getLatestMarketData\<close>: every exception of the \<^verbatim>\<open>try\<close> block, the refused arguments
  included, lands in the \<^verbatim>\<open>catch\<close>, which returns \<^verbatim>\<open>generateSimulatedData(symbol, limit)\<close>.
\<close>

definition getLatestMarketData :: "env \<Rightarrow> string \<Rightarrow> int \<Rightarrow> world \<Rightarrow> bar list \<times> world" where
  "getLatestMarketData e s limit w =
     (if s = [] \<or> invalid_count limit then generateSimulatedData e s limit w
      else (case generateSampleData e s (max limit 100) w of
              (Thrown, w1) \<Rightarrow> generateSimulatedData e s limit w1
            | (Resolved, w1) \<Rightarrow>
                if store_fails e (store_calls w1)
                then generateSimulatedData e s limit (store_rejects w1)
                else (let data = find_latest (docs w1) s (nat limit);
                          w2 = w1\<lparr>store_calls := Suc (store_calls w1)\<rparr>
                      in if data = [] then generateSimulatedData e s limit w2
                         else (rev data, w2))))"

text \<open>
  \<^verbatim>\<open>fetchTopMovers\<close>. \<^verbatim>\<open>parseFloat(x.toFixed(2))\<close> rounds a double to two decimals; what it
  gives depends on the binary value of the double, which the idealisation does not have,
  so the rounding is the parameter \<open>toFixed2\<close>. The stored closes are positive, so the
  division is by a non-zero number.
\<close>

record mover =
  mover_symbol :: string
  change :: real




section \<open>The routes\<close>

text \<open>
  \<^verbatim>\<open>/^[A-Za-z0-9.]{1,10}$/\<close>, the pattern of both routers. The query parameter is absent
  (\<open>None\<close>) or a string.
\<close>

definition route_symbol_match :: "string \<Rightarrow> bool" where
  "route_symbol_match s =
     (1 \<le> length s \<and> length s \<le> 10 \<and>
      list_all (\<lambda>c. is_upper c \<or> is_lower c \<or> is_digit c \<or> c = CHR ''.'') s)"

text \<open>
  \<^verbatim>\<open>validateRequest\<close> of \<^verbatim>\<open>analysisRoutes.js\<close>: true when it calls \<^verbatim>\<open>next()\<close>, false when it
  answers 400. The test is \<^verbatim>\<open>symbol && (... || !symbol.match(...))\<close>, and the empty string
  is falsy.
\<close>

definition validateRequest :: "string option \<Rightarrow> bool" where
  "validateRequest q =
     (case q of None \<Rightarrow> True | Some s \<Rightarrow> if s = [] then True else route_symbol_match s)"

text \<open>
  \<^verbatim>\<open>symbolValidation\<close> of \<^verbatim>\<open>marketRoutes.js\<close> followed by \<^verbatim>\<open>validate\<close>:
  \<^verbatim>\<open>optional()\<close> lets only an absent parameter through unchecked, then
  \<^verbatim>\<open>isLength({ min: 1, max: 10 })\<close> and \<^verbatim>\<open>matches\<close> apply.
\<close>

definition symbolValidation :: "string option \<Rightarrow> bool" where
  "symbolValidation q =
     (case q of None \<Rightarrow> True
      | Some s \<Rightarrow> 1 \<le> length s \<and> length s \<le> 10 \<and> route_symbol_match s)"

text \<open>
  The head of \<^verbatim>\<open>router.get('/sentiment', validateRequest, ...)\<close>, up to the point where
  the handler has its bars: the 400 of the middleware, the 404 of the empty result, or
  the bars the analysis goes on with.
\<close>

datatype reply = Reply400 | Reply404 | Proceed "bar list"

definition sentiment_entry :: "env \<Rightarrow> string option \<Rightarrow> world \<Rightarrow> reply \<times> world" where
  "sentiment_entry e q w =
     (if \<not> validateRequest q then (Reply400, w)
      else (let s = (case q of None \<Rightarrow> ''SPY'' | Some s \<Rightarrow> s)
            in case getLatestMarketData e s 50 w of
                 (marketData, w1) \<Rightarrow>
                   if marketData = [] then (Reply404, w1) else (Proceed marketData, w1)))"

section \<open>The MACD part of the sentiment score\<close>

text \<open>
  \<^verbatim>\<open>marketData[marketData.length - 2].macd?.histogram\<close>. A bar has no \<^verbatim>\<open>macd\<close> property,
  so the value is \<^verbatim>\<open>undefined\<close>; with fewer than two bars the element itself is
  \<^verbatim>\<open>undefined\<close> and reading \<^verbatim>\<open>.macd\<close> throws.
\<close>

definition previous_histogram :: "bar list \<Rightarrow> js_error + jsval" where
  "previous_histogram marketData = (if length marketData < 2 then Inl TypeError else Inr Undefined)"

text \<open>
  The histogram test of the handler, with the short-circuit of \<^verbatim>\<open>&&\<close>: the previous bar
  is read only after \<^verbatim>\<open>histogram > 0\<close> (or \<^verbatim>\<open>histogram < 0\<close>) holds.
\<close>

definition histogram_score :: "jsval \<Rightarrow> bar list \<Rightarrow> js_error + real" where
  "histogram_score h marketData =
     (if h = Null then Inr 0
      else if js_gt h (Num 0)
      then (case previous_histogram marketData of
              Inl err \<Rightarrow> Inl err
            | Inr p \<Rightarrow> if js_gt h p then Inr 0.5 else Inr 0)
      else if js_lt h (Num 0)
      then (case previous_histogram marketData of
              Inl err \<Rightarrow> Inl err
            | Inr p \<Rightarrow> if js_lt h p then Inr (- 0.5) else Inr 0)
      else Inr 0)"

text \<open>What lines 998 to 1017 of the handler add to \<^verbatim>\<open>sentimentScore\<close>.\<close>

definition macd_score :: "macd_latest \<Rightarrow> bar list \<Rightarrow> js_error + real" where
  "macd_score m marketData =
     (if line m \<noteq> Null \<and> signal m \<noteq> Null
      then (case histogram_score (histogram_latest m) marketData of
              Inl err \<Rightarrow> Inl err
            | Inr x \<Rightarrow> Inr ((if js_gt (line m) (signal m) then 0.75 else - 0.75) + x))
      else Inr 0)"

section \<open>The response cache\<close>

text \<open>
  The \<^verbatim>\<open>NodeCache\<close> of \<^verbatim>\<open>marketRoutes.js\<close>, as the list of its keys with their entries.
  \<^verbatim>\<open>key.includes(pattern)\<close> is the substring test.
\<close>

record 'v cache_entry =
  payload :: 'v
  expiresAt :: int

type_synonym 'v cache = "(string \<times> 'v cache_entry) list"

definition cache_keys :: "'v cache \<Rightarrow> string list" where
  "cache_keys c = map fst c"

definition cache_del :: "string \<Rightarrow> 'v cache \<Rightarrow> 'v cache" where
  "cache_del k c = filter (\<lambda>kv. fst kv \<noteq> k) c"

fun js_includes :: "string \<Rightarrow> string \<Rightarrow> bool" where
  "js_includes [] p = (p = [])"
| "js_includes (c # cs) p = (prefix p (c # cs) \<or> js_includes cs p)"

definition invalidateCache :: "string \<Rightarrow> 'v cache \<Rightarrow> 'v cache" where
  "invalidateCache pattern c =
     (let keys = cache_keys c;
          matchingKeys = filter (\<lambda>key. js_includes key pattern) keys
      in foldl (\<lambda>c' key. cache_del key c') c matchingKeys)"

section \<open>Arithmetic of numbers and NaN\<close>

lemma js_simps [simp]:
  "js_add (Num a) (Num b) = Num (a + b)"
  "js_sub (Num a) (Num b) = Num (a - b)"
  "js_mul (Num a) (Num b) = Num (a * b)"
  "js_gt (Num a) (Num b) = (b < a)"
  by (simp_all add: js_add_def js_sub_def js_mul_def js_arith_def js_gt_def)

lemma js_div_Num [simp]: "b \<noteq> 0 \<Longrightarrow> js_div (Num a) (Num b) = Num (a / b)"
  by (simp add: js_div_def)

lemma js_NaN_simps [simp]:
  "js_add NaN b = NaN" "js_add a NaN = NaN"
  "js_sub NaN b = NaN" "js_sub a NaN = NaN"
  "js_sub a Undefined = NaN"
  "js_mul NaN b = NaN" "js_mul a NaN = NaN"
  by (simp_all add: js_add_def js_sub_def js_mul_def js_arith_def split: option.splits)

lemma foldl_gains:
  "list_all (\<lambda>c. 0 < c) cs \<Longrightarrow>
   foldl rsi_accumulate (Num g, Num l) (map Num cs) = (Num (g + sum_list cs), Num l)"
  by (induction cs arbitrary: g) (simp_all add: rsi_accumulate_def add.assoc)

lemma foldl_losses:
  "list_all (\<lambda>c. c < 0) cs \<Longrightarrow>
   foldl rsi_accumulate (Num g, Num l) (map Num cs) = (Num g, Num (l - sum_list cs))"
  by (induction cs arbitrary: l) (simp_all add: rsi_accumulate_def algebra_simps)

lemma rsi_window_up:
  "list_all (\<lambda>c. 0 < c) cs \<Longrightarrow> 0 < p \<Longrightarrow> rsi_of_window (map Num cs) p = Num 100"
  by (simp add: rsi_of_window_def foldl_gains Let_def)

lemma sum_list_nonpos: "list_all (\<lambda>c. c < (0::real)) cs \<Longrightarrow> sum_list cs \<le> 0"
  by (induction cs) auto

lemma sum_list_neg: "list_all (\<lambda>c. c < (0::real)) cs \<Longrightarrow> cs \<noteq> [] \<Longrightarrow> sum_list cs < 0"
  using sum_list_nonpos by (cases cs) (auto intro: add_neg_nonpos)

lemma rsi_window_down:
  "list_all (\<lambda>c. c < 0) cs \<Longrightarrow> cs \<noteq> [] \<Longrightarrow> 0 < p \<Longrightarrow> rsi_of_window (map Num cs) p = Num 0"
  using sum_list_neg[of cs]
  by (simp add: rsi_of_window_def foldl_losses Let_def)


lemma price_changes_Num: "price_changes (map Num xs) = map Num (deltas xs)"
  by (auto simp: price_changes_def deltas_def)

lemma slice_map: "slice a b (map f xs) = map f (slice a b xs)"
  by (simp add: slice_def take_map drop_map)

lemma list_all_slice: "list_all P xs \<Longrightarrow> list_all P (slice a b xs)"
  by (auto simp: slice_def list_all_iff dest: in_set_takeD in_set_dropD)

lemma length_slice: "length (slice a b xs) = min (b - a) (length xs - a)"
  by (simp add: slice_def)

lemma length_deltas: "length (deltas xs) = length xs - 1"
  by (simp add: deltas_def)

lemma rsi_values_up:
  assumes "list_all (\<lambda>c. 0 < c) (deltas xs)" "0 < p" "p < length xs"
  shows "calculateRSI (map Num xs) p = Some (replicate (length xs - 1 - p) (Num 100))"
proof -
  have "map (\<lambda>i. rsi_of_window (slice (i - p) i (map Num (deltas xs))) p) [p ..< length (deltas xs)]
        = map (\<lambda>i. Num 100) [p ..< length (deltas xs)]"
    by (rule map_cong) (simp_all add: slice_map rsi_window_up list_all_slice assms)
  then show ?thesis
    using assms by (simp add: calculateRSI_def price_changes_Num Let_def length_deltas map_replicate_const)
qed

lemma rsi_values_down:
  assumes "list_all (\<lambda>c. c < 0) (deltas xs)" "0 < p" "p < length xs"
  shows "calculateRSI (map Num xs) p = Some (replicate (length xs - 1 - p) (Num 0))"
proof -
  have "map (\<lambda>i. rsi_of_window (slice (i - p) i (map Num (deltas xs))) p) [p ..< length (deltas xs)]
        = map (\<lambda>i. Num 0) [p ..< length (deltas xs)]"
  proof (rule map_cong)
    fix i assume "i \<in> set [p ..< length (deltas xs)]"
    then have "slice (i - p) i (deltas xs) \<noteq> []"
      using assms by (auto simp: slice_def)
    then show "rsi_of_window (slice (i - p) i (map Num (deltas xs))) p = Num 0"
      by (simp add: slice_map rsi_window_down list_all_slice assms)
  qed simp
  then show ?thesis
    using assms by (simp add: calculateRSI_def price_changes_Num Let_def length_deltas map_replicate_const)
qed

lemma getLatest_replicate: "0 < n \<Longrightarrow> getLatestValue (Some (replicate n v)) = v"
  by (simp add: getLatestValue_def js_nth_def)

lemma getLatest_empty: "getLatestValue (Some []) = Undefined"
  by (simp add: getLatestValue_def js_nth_def)

section \<open>The MACD lines\<close>

lemma length_ema_loop [simp]: "length (ema_loop k e xs) = length xs"
  by (induction xs arbitrary: e) (simp_all add: Let_def)

lemma length_ema_values [simp]: "length (ema_values data p) = Suc (length data - p)"
  by (simp add: ema_values_def Let_def)

lemma last_ema_loop_NaN:
  "xs \<noteq> [] \<Longrightarrow> last xs = NaN \<Longrightarrow> last (ema_loop k e xs) = NaN"
proof (induction xs arbitrary: e)
  case Nil
  then show ?case by simp
next
  case (Cons x xs)
  show ?case
  proof (cases "xs = []")
    case True
    with Cons.prems show ?thesis by (simp add: Let_def)
  next
    case False
    then have "ema_loop k (js_add (js_mul x (Num k)) (js_mul e (Num (1 - k)))) xs \<noteq> []"
      by (metis length_ema_loop length_0_conv)
    with False Cons show ?thesis by (simp add: Let_def)
  qed
qed

lemma last_ema_values_NaN:
  assumes "p < length ml" "last ml = NaN"
  shows "last (ema_values ml p) = NaN"
proof -
  have ne: "drop p ml \<noteq> []" using assms by simp
  then have "last (drop p ml) = NaN" using assms by simp
  from last_ema_loop_NaN[OF ne this]
  have l: "last (ema_loop k e (drop p ml)) = NaN" for k e .
  have n: "ema_loop k e (drop p ml) \<noteq> []" for k e
    using ne length_ema_loop[of k e "drop p ml"] by (metis length_0_conv)
  show ?thesis
    by (simp add: ema_values_def Let_def l n)
qed

lemma length_macd_line:
  "length emaSlow \<le> length emaFast \<Longrightarrow> length (macd_line emaFast emaSlow) = length emaFast"
proof -
  assume a: "length emaSlow \<le> length emaFast"
  have "filter (\<lambda>i. int (length emaSlow) - int (length emaFast) \<le> int i) [0 ..< length emaFast]
        = [0 ..< length emaFast]"
    using a by (intro filter_True) auto
  then show ?thesis by (simp add: macd_line_def Let_def)
qed

lemma macd_line_nth:
  assumes "length emaSlow \<le> length emaFast" "i < length emaFast"
  shows "macd_line emaFast emaSlow ! i =
         js_sub (emaFast ! i) (js_nth emaSlow (int i + (int (length emaFast) - int (length emaSlow))))"
proof -
  have "filter (\<lambda>i. int (length emaSlow) - int (length emaFast) \<le> int i) [0 ..< length emaFast]
        = [0 ..< length emaFast]"
    using assms by (intro filter_True) auto
  then show ?thesis using assms by (simp add: macd_line_def Let_def algebra_simps)
qed

lemma last_macd_line_NaN:
  assumes "length emaSlow < length emaFast"
  shows "last (macd_line emaFast emaSlow) = NaN"
proof -
  let ?n = "length emaFast"
  have le: "length emaSlow \<le> ?n" using assms by simp
  have len: "length (macd_line emaFast emaSlow) = ?n" by (rule length_macd_line[OF le])
  then have ne: "macd_line emaFast emaSlow \<noteq> []" using assms by auto
  have "last (macd_line emaFast emaSlow) = macd_line emaFast emaSlow ! (?n - 1)"
    using ne len by (simp add: last_conv_nth)
  also have "\<dots> = js_sub (emaFast ! (?n - 1))
                       (js_nth emaSlow (int (?n - 1) + (int ?n - int (length emaSlow))))"
    using assms by (intro macd_line_nth[OF le]) simp
  also have "js_nth emaSlow (int (?n - 1) + (int ?n - int (length emaSlow))) = Undefined"
    using assms by (simp add: js_nth_def)
  finally show ?thesis by simp
qed

lemma getLatest_last: "xs \<noteq> [] \<Longrightarrow> getLatestValue (Some xs) = last xs"
  by (cases xs rule: rev_cases) (simp_all add: getLatestValue_def js_nth_def)

lemma last_macd_histogram_NaN:
  assumes "sl \<noteq> []" "last sl = NaN"
  shows "last (macd_histogram ml sl) = NaN"
  using assms by (simp add: macd_histogram_def last_map last_conv_nth)

lemma calculateMACD_latest_NaN:
  assumes "35 \<le> length data"
  shows "\<exists>m. calculateMACD data 12 26 9 = Inr (Some m) \<and>
             getLatestValue (Some (macdLine m)) = NaN \<and>
             getLatestValue (Some (signalLine m)) = NaN \<and>
             getLatestValue (Some (histogram m)) = NaN"
proof -
  let ?f = "ema_values data 12" and ?s = "ema_values data 26"
  let ?ml = "macd_line ?f ?s"
  let ?sl = "ema_values ?ml 9"
  have lt: "length ?s < length ?f" using assms by simp
  have len_ml: "length ?ml = length data - 11"
    using assms lt by (simp add: length_macd_line)
  have last_ml: "last ?ml = NaN" by (rule last_macd_line_NaN[OF lt])
  have ml_ne: "?ml \<noteq> []" using len_ml assms by auto
  have last_sl: "last ?sl = NaN"
    using len_ml assms by (intro last_ema_values_NaN last_ml) simp
  have sl_ne: "?sl \<noteq> []" by (simp add: ema_values_def Let_def)
  have hist_ne: "macd_histogram ?ml ?sl \<noteq> []"
    using sl_ne by (simp add: macd_histogram_def)
  have ema: "calculateEMA ?ml 9 = Some ?sl"
    using len_ml assms by (simp add: calculateEMA_def)
  have guard: "\<not> length data < max 12 26 + 9" using assms by simp
  let ?m = "\<lparr>macdLine = ?ml, signalLine = ?sl, histogram = macd_histogram ?ml ?sl\<rparr>"
  have m: "calculateMACD data 12 26 9 = Inr (Some ?m)"
    by (simp only: calculateMACD_def Let_def guard if_False ema option.case)
  have g1: "getLatestValue (Some (macdLine ?m)) = NaN"
    using getLatest_last[OF ml_ne] last_ml by simp
  have g2: "getLatestValue (Some (signalLine ?m)) = NaN"
    using getLatest_last[OF sl_ne] last_sl by simp
  have g3: "getLatestValue (Some (histogram ?m)) = NaN"
    using getLatest_last[OF hist_ne] last_macd_histogram_NaN[OF sl_ne last_sl, of ?ml] by simp
  from m g1 g2 g3 show ?thesis by blast
qed

section \<open>RSI of monotone series; the latest MACD values\<close>

lemma changes_pos_iff:
  "list_all (\<lambda>c. js_gt c (Num 0)) (price_changes (map Num xs)) = list_all (\<lambda>c. 0 < c) (deltas xs)"
  by (simp add: price_changes_Num list_all_iff)

lemma changes_neg_iff:
  "list_all (\<lambda>c. js_lt c (Num 0)) (price_changes (map Num xs)) = list_all (\<lambda>c. c < 0) (deltas xs)"
  by (simp add: price_changes_Num list_all_iff js_lt_def)

text \<open>
  From sixteen closing prices on, \<^verbatim>\<open>calculateRSI(closes, 14)\<close> has a latest value: 100 when
  every period-over-period change is strictly positive (the branch \<^verbatim>\<open>avgLoss === 0\<close>), 0
  when every change is strictly negative.
\<close>

lemma rsi_of_monotone_series:
  assumes "16 \<le> length xs"
  shows "(list_all (\<lambda>c. js_gt c (Num 0)) (price_changes (map Num xs))
            \<longrightarrow> getLatestValue (calculateRSI (map Num xs) 14) = Num 100) \<and>
         (list_all (\<lambda>c. js_lt c (Num 0)) (price_changes (map Num xs))
            \<longrightarrow> getLatestValue (calculateRSI (map Num xs) 14) = Num 0)"
proof (intro conjI impI)
  assume "list_all (\<lambda>c. js_gt c (Num 0)) (price_changes (map Num xs))"
  then have "list_all (\<lambda>c. 0 < c) (deltas xs)" by (simp only: changes_pos_iff)
  then have "calculateRSI (map Num xs) 14 = Some (replicate (length xs - 1 - 14) (Num 100))"
    using assms by (intro rsi_values_up) simp_all
  then show "getLatestValue (calculateRSI (map Num xs) 14) = Num 100"
    using assms by (simp add: getLatest_replicate)
next
  assume "list_all (\<lambda>c. js_lt c (Num 0)) (price_changes (map Num xs))"
  then have "list_all (\<lambda>c. c < 0) (deltas xs)" by (simp only: changes_neg_iff)
  then have "calculateRSI (map Num xs) 14 = Some (replicate (length xs - 1 - 14) (Num 0))"
    using assms by (intro rsi_values_down) simp_all
  then show "getLatestValue (calculateRSI (map Num xs) 14) = Num 0"
    using assms by (simp add: getLatest_replicate)
qed

lemma upt_16: "[1 ..< 16] = [1,2,3,4,5,6,7,8,9,10,11,12,13,14,15::nat]"
  by (simp add: upt_rec)

lemma rsi_of_monotone_series_example:
  "getLatestValue (calculateRSI (map Num [1,2,3,4,5,6,7,8,9,10,11,12,13,14,15,16]) 14) = Num 100 \<and>
   getLatestValue (calculateRSI (map Num [16,15,14,13,12,11,10,9,8,7,6,5,4,3,2,1]) 14) = Num 0"
proof -
  have up: "list_all (\<lambda>c. js_gt c (Num 0))
              (price_changes (map Num [1,2,3,4,5,6,7,8,9,10,11,12,13,14,15,16]))"
    by (simp add: price_changes_def upt_16)
  have down: "list_all (\<lambda>c. js_lt c (Num 0))
              (price_changes (map Num [16,15,14,13,12,11,10,9,8,7,6,5,4,3,2,1]))"
    by (simp add: price_changes_def upt_16 js_lt_def)
  show ?thesis
    using rsi_of_monotone_series[of "[1,2,3,4,5,6,7,8,9,10,11,12,13,14,15,16]"]
          rsi_of_monotone_series[of "[16,15,14,13,12,11,10,9,8,7,6,5,4,3,2,1]"] up down
    by simp
qed

lemma upt_15: "[1 ..< 15] = [1,2,3,4,5,6,7,8,9,10,11,12,13,14::nat]"
  by (simp add: upt_rec)

text \<open>
  Claim C5, on the code. Fifteen closing prices have the fourteen changes that RSI(14)
  needs, and they pass the guard \<^verbatim>\<open>data.length <= periods\<close>. But the loop
  \<^verbatim>\<open>for (let i = periods; i < changes.length; i++)\<close> stops one round early: with fourteen
  changes it runs no round, the result is the empty array and its latest value is
  \<^verbatim>\<open>undefined\<close>, not 100 or 0, however the prices move.
\<close>

theorem rsi_of_fifteen_prices:
  assumes "length data = 15"
  shows "calculateRSI data 14 = Some [] \<and> getLatestValue (calculateRSI data 14) = Undefined"
  using assms
  by (simp add: calculateRSI_def price_changes_def Let_def getLatestValue_def js_nth_def)

theorem rsi_of_fifteen_prices_witness:
  "list_all (\<lambda>c. js_gt c (Num 0))
     (price_changes (map Num [1,2,3,4,5,6,7,8,9,10,11,12,13,14,15])) \<and>
   calculateRSI (map Num [1,2,3,4,5,6,7,8,9,10,11,12,13,14,15]) 14 = Some [] \<and>
   getLatestValue (calculateRSI (map Num [1,2,3,4,5,6,7,8,9,10,11,12,13,14,15]) 14) = Undefined"
proof -
  have up: "list_all (\<lambda>c. js_gt c (Num 0))
              (price_changes (map Num [1,2,3,4,5,6,7,8,9,10,11,12,13,14,15]))"
    by (simp add: price_changes_def upt_15)
  have "length (map Num [1,2,3,4,5,6,7,8,9,10,11,12,13,14,15]) = 15" by simp
  from rsi_of_fifteen_prices[OF this] up show ?thesis by blast
qed

text \<open>
  Claim C1, on the code. \<^verbatim>\<open>calculateMACD\<close> takes the difference of the array lengths the
  wrong way round: the fast EMA is the longer array, so the test
  \<^verbatim>\<open>i >= emaSlow.length - emaFast.length\<close> always holds and \<^verbatim>\<open>emaSlow\<close> is read fourteen
  places too far to the right. The last reads are out of range, so for every series of at
  least 35 bars the latest MACD line, signal and histogram that \<^verbatim>\<open>calculateIndicators\<close>
  returns are all NaN, not numbers with histogram = line - signal.
\<close>

theorem macd_latest_is_NaN:
  assumes "35 \<le> length marketData"
  shows "map_sum id (map_option macd) (calculateIndicators marketData)
         = Inr (Some \<lparr>line = NaN, signal = NaN, histogram_latest = NaN\<rparr>)"
proof -
  let ?closes = "map (\<lambda>d. Num (bclose d)) marketData"
  have "35 \<le> length ?closes" using assms by simp
  from calculateMACD_latest_NaN[OF this] obtain m where
    m: "calculateMACD ?closes 12 26 9 = Inr (Some m)"
      "getLatestValue (Some (macdLine m)) = NaN"
      "getLatestValue (Some (signalLine m)) = NaN"
      "getLatestValue (Some (histogram m)) = NaN"
    by blast
  have "marketData \<noteq> []" using assms by auto
  then show ?thesis
    by (simp add: calculateIndicators_def Let_def m)
qed

theorem macd_latest_is_NaN_witness:
  "map_sum id (map_option macd)
     (calculateIndicators
        (map (\<lambda>i. \<lparr>symbol = ''SPY'', timestamp = 300000 * int i, bopen = 100 + real i,
                    high = 101 + real i, low = 99 + real i, bclose = 100 + real i,
                    volume = 1000, source = ''SIMULATED''\<rparr>) [0 ..< 35]))
   = Inr (Some \<lparr>line = NaN, signal = NaN, histogram_latest = NaN\<rparr>)"
  by (rule macd_latest_is_NaN) simp

section \<open>Generated bars\<close>

lemma basePrice_pos: "0 < basePrice smb"
  by (simp add: basePrice_def)

text \<open>The open, high and low that the generators derive from a positive close.\<close>

lemma ohlc_bar_invariants:
  fixes cl :: real
  assumes cl: "0 < cl" and r2: "0 \<le> r2" "r2 \<le> 1" and r3: "0 \<le> r3"
    and r4: "0 \<le> r4" "r4 \<le> 1" and v: "0 \<le> v"
    and rng: "rng = cl * 0.002" and op: "op = cl - (r2 - 0.5) * rng"
    and hi: "hi = max cl op + r3 * rng" and lo: "lo = min cl op - r4 * rng"
  shows "bar_invariants \<lparr>symbol = s, timestamp = t, bopen = op, high = hi, low = lo,
                          bclose = cl, volume = v, source = src\<rparr>"
proof -
  have rng_eq: "rng = cl / 500" using rng by simp
  have rng_pos: "0 < rng" using cl rng_eq by simp
  define p2 where "p2 = r2 * rng"
  define p3 where "p3 = r3 * rng"
  define p4 where "p4 = r4 * rng"
  have p2: "0 \<le> p2" "p2 \<le> rng"
    using r2 rng_pos by (simp_all add: p2_def mult_left_le_one_le)
  have p3: "0 \<le> p3" using r3 rng_pos by (simp add: p3_def)
  have p4: "0 \<le> p4" "p4 \<le> rng"
    using r4 rng_pos by (simp_all add: p4_def mult_left_le_one_le)
  have op_eq: "op = cl - p2 + rng / 2" by (simp add: op p2_def algebra_simps)
  have hi_eq: "hi = max cl op + p3" by (simp add: hi p3_def)
  have lo_eq: "lo = min cl op - p4" by (simp add: lo p4_def)
  have "max op cl \<le> hi" "lo \<le> min op cl" "0 < op" "0 < hi" "0 < lo"
    using cl rng_eq rng_pos p2 p3 p4 unfolding op_eq hi_eq lo_eq max_def min_def
    by (auto split: if_splits)
  then show ?thesis using cl v by (simp add: bar_invariants_def)
qed

lemma noise_bounds:
  fixes r1 :: real
  assumes "0 \<le> r1" "r1 \<le> 1"
  shows "\<bar>sin (real i / 30) * 3 + sin (real i / 8) * 2 + (r1 - 0.5) * 1.5\<bar> \<le> 5.75"
proof -
  have a: "- 1 \<le> sin (real i / 30)" "sin (real i / 30) \<le> 1" by simp_all
  have b: "- 1 \<le> sin (real i / 8)" "sin (real i / 8) \<le> 1" by simp_all
  have c: "(r1 - 0.5) * 1.5 = r1 * (3/2) - 3/4" by (simp add: field_simps)
  show ?thesis unfolding c abs_le_iff using a b assms by (simp; linarith)
qed

lemma backfill_close_pos:
  fixes vf noise bp :: real
  assumes "0 \<le> vf" "vf * 5.75 < 1" "\<bar>noise\<bar> \<le> 5.75" "0 < bp"
  shows "0 < bp * (1 + noise * vf)"
proof -
  have "- 5.75 \<le> noise" using assms(3) by (simp add: abs_le_iff)
  then have "- 5.75 * vf \<le> noise * vf" using assms(1) by (intro mult_right_mono) auto
  then have "0 < 1 + noise * vf" using assms(2) by (simp add: mult.commute)
  then show ?thesis using assms(4) by simp
qed

lemma backfill_bar_invariants:
  assumes vf: "0 \<le> vf" "vf * 5.75 < 1"
    and r: "0 \<le> r1" "r1 \<le> 1" "0 \<le> r2" "r2 \<le> 1" "0 \<le> r3" "0 \<le> r4" "r4 \<le> 1" "0 \<le> r5"
  shows "bar_invariants (backfill_bar vf smb now n i r1 r2 r3 r4 r5)"
proof -
  have nb: "\<bar>sin (real i / 30) * 3 + sin (real i / 8) * 2 + (r1 - 0.5) * 1.5\<bar> \<le> 5.75"
    by (rule noise_bounds) fact+
  have cl: "0 < basePrice smb *
      (1 + (sin (real i / 30) * 3 + sin (real i / 8) * 2 + (r1 - 0.5) * 1.5) * vf)"
    by (rule backfill_close_pos[OF vf nb basePrice_pos])
  have v: "(0::real) \<le> of_int \<lfloor>50000 + r5 * 150000\<rfloor>" using r(8) by simp
  show ?thesis
    unfolding backfill_bar_def Let_def
    by (rule ohlc_bar_invariants[OF cl r(3,4,5,6,7) v]) (rule refl)+
qed

lemma sampleVolatility_bounds: "0 \<le> sampleVolatility" "sampleVolatility * 5.75 < 1"
proof -
  define q where "q = sqrt (1 / 288)"
  have "q \<le> sqrt 1" unfolding q_def by (intro real_sqrt_le_mono) simp
  then have q1: "q \<le> 1" by simp
  have q0: "0 \<le> q" unfolding q_def by simp
  show "sampleVolatility * 5.75 < 1"
    unfolding sampleVolatility_def q_def[symmetric] using q1 by simp
  show "0 \<le> sampleVolatility"
    unfolding sampleVolatility_def q_def[symmetric] using q0 by simp
qed

lemma simulatedVolatility_bounds: "0 \<le> simulatedVolatility" "simulatedVolatility * 5.75 < 1"
  by (simp_all add: simulatedVolatility_def)

lemma backfill_bars_invariants:
  assumes "0 \<le> vf" "vf * 5.75 < 1" "\<forall>j. 0 \<le> rand j \<and> rand j < 1"
  shows "list_all bar_invariants (backfill_bars vf smb now n rand k)"
proof -
  have "bar_invariants (backfill_bar vf smb now n i (rand (k + 5 * i)) (rand (k + 5 * i + 1))
          (rand (k + 5 * i + 2)) (rand (k + 5 * i + 3)) (rand (k + 5 * i + 4)))" for i
    using assms by (intro backfill_bar_invariants) (auto simp: less_imp_le)
  then show ?thesis by (simp add: backfill_bars_def list_all_iff)
qed

lemma interval_factor_pos:
  assumes "0 \<le> r" "r \<le> 1"
  shows "0 < 1 + intervalDrift + intervalVol * (r * 2 - 1)"
proof -
  define q where "q = sqrt (252 * 78)"
  have "sqrt 1 \<le> q" unfolding q_def by (intro real_sqrt_le_mono) simp
  then have q1: "1 \<le> q" by simp
  then have "0.15 / q \<le> 0.15 / 1" by (intro divide_left_mono) simp_all
  then have v1: "intervalVol \<le> 0.15" unfolding intervalVol_def q_def by simp
  have v0: "0 \<le> intervalVol" unfolding intervalVol_def by simp
  have d0: "0 \<le> intervalDrift" unfolding intervalDrift_def by simp
  have "- 1 \<le> r * 2 - 1" using assms by simp
  then have "intervalVol * (- 1) \<le> intervalVol * (r * 2 - 1)"
    using v0 by (intro mult_left_mono) simp_all
  then show ?thesis using v1 d0 by simp
qed

lemma historical_loop_invariants:
  assumes "\<forall>j. 0 \<le> rand j \<and> rand j < 1" "0 < currentPrice"
  shows "list_all bar_invariants (historical_loop smb now n rand k currentPrice i m)"
  using assms(2)
proof (induction m arbitrary: k currentPrice i)
  case 0
  then show ?case by simp
next
  case (Suc m)
  have r: "0 \<le> rand j" "rand j \<le> 1" for j using assms(1) by (auto simp: less_imp_le)
  let ?price = "currentPrice * (1 + intervalDrift + intervalVol * (rand k * 2 - 1))"
  have price: "0 < ?price"
    using Suc.prems interval_factor_pos[OF r] by simp
  have v: "(0::real) \<le> of_int \<lfloor>50000 + rand (k + 4) * 150000\<rfloor>" using r by simp
  have hd: "bar_invariants
     \<lparr>symbol = smb, timestamp = now - (int n - int i) * 5 * 60000,
        bopen = ?price - (rand (k + 1) - 0.5) * (?price * 0.002),
        high = max (?price - (rand (k + 1) - 0.5) * (?price * 0.002)) ?price
                 + rand (k + 2) * (?price * 0.002),
        low = min (?price - (rand (k + 1) - 0.5) * (?price * 0.002)) ?price
                 - rand (k + 3) * (?price * 0.002),
        bclose = ?price,
        volume = of_int \<lfloor>50000 + rand (k + 4) * 150000\<rfloor>,
        source = ''SIMULATED''\<rparr>"
    by (rule ohlc_bar_invariants[OF price r r(1) r v refl refl])
       (simp_all only: max.commute min.commute)
  show ?case
    using hd Suc.IH[OF price] by (simp add: Let_def)
qed

lemma newDataPoint_invariants:
  fixes latest :: bar
  assumes pc: "0 < bclose latest" and ts: "timestamp latest \<le> now"
    and r: "0 \<le> r1" "r1 < 1" "0 \<le> r2" "0 \<le> r3" "r3 < 1" "0 \<le> r4"
  shows "\<exists>b. newDataPoint smb now latest r1 r2 r3 r4 = Some b \<and>
             max (bopen b) (bclose b) \<le> high b \<and> low b \<le> min (bopen b) (bclose b) \<and>
             0 < bopen b \<and> 0 < high b \<and> 0 \<le> volume b \<and>
             (0.0007 * sqrt (real_of_int (now - timestamp latest) / (1000 * 60)) \<le> 0.999
                \<longrightarrow> bar_invariants b)"
proof -
  define p where "p = bclose latest"
  define el where "el = real_of_int (now - timestamp latest) / (1000 * 60)"
  define vf where "vf = 0.0007 * sqrt el"
  define c where "c = (r1 - 0.5) * 2 * vf"
  define ch where "ch = p * c"
  define p2 where "p2 = r2 * (p * 0.001)"
  define p3 where "p3 = r3 * (p * 0.001)"
  have el0: "\<not> el < 0" using ts by (simp add: el_def)
  have vf0: "0 \<le> vf" using el0 by (simp add: vf_def)
  have p0: "0 < p" using pc by (simp add: p_def)
  have p2b: "0 \<le> p2" using r p0 by (simp add: p2_def)
  have p3b: "0 \<le> p3" "p3 < p * 0.001"
    using r p0 by (simp_all add: p3_def)
  have chg: "p * (r1 - 0.5) * 2 * vf = ch" by (simp add: ch_def c_def)
  have cl: "- vf \<le> c"
  proof -
    have "(- 1) * vf \<le> ((r1 - 0.5) * 2) * vf"
      using r vf0 by (intro mult_right_mono) simp_all
    then show ?thesis by (simp add: c_def)
  qed
  have chb: "vf \<le> 0.999 \<Longrightarrow> - (p * 0.999) \<le> ch"
  proof -
    assume "vf \<le> 0.999"
    then have "- 0.999 \<le> c" using cl by simp
    then have "p * (- 0.999) \<le> p * c" using p0 by (intro mult_left_mono) simp_all
    then show ?thesis by (simp add: ch_def)
  qed
  let ?b = "\<lparr>symbol = smb, timestamp = now, bopen = p,
             high = max p (p + ch) + p2, low = min p (p + ch) - p3, bclose = p + ch,
             volume = of_int \<lfloor>50000 + r4 * 150000\<rfloor>, source = ''SIMULATED''\<rparr>"
  have eq: "newDataPoint smb now latest r1 r2 r3 r4 = Some ?b"
    using el0
    by (simp only: newDataPoint_def Let_def p_def[symmetric] el_def[symmetric] vf_def[symmetric]
          chg p2_def[symmetric] p3_def[symmetric] if_False)
  have v: "(0::real) \<le> of_int \<lfloor>50000 + r4 * 150000\<rfloor>" using r by simp
  have ord: "max (bopen ?b) (bclose ?b) \<le> high ?b \<and> low ?b \<le> min (bopen ?b) (bclose ?b) \<and>
             0 < bopen ?b \<and> 0 < high ?b \<and> 0 \<le> volume ?b"
    using p2b p3b p0 v by (auto simp: max_def min_def)
  have full: "vf \<le> 0.999 \<longrightarrow> bar_invariants ?b"
  proof
    assume "vf \<le> 0.999"
    from chb[OF this] have "0 < p + ch" "0 < min p (p + ch) - p3"
      using p0 p3b by (auto simp: min_def)
    then show "bar_invariants ?b" using ord by (simp add: bar_invariants_def)
  qed
  from eq ord full show ?thesis unfolding vf_def el_def by blast
qed

text \<open>
  Claim C3, as the code has it. Let every \<^verbatim>\<open>Math.random()\<close> result lie in [0, 1). Every bar
  of the three backfill loops (\<^verbatim>\<open>generateSampleData\<close>, \<^verbatim>\<open>generateSimulatedData\<close>,
  \<^verbatim>\<open>generateHistoricalSimulation\<close>) satisfies all the bar invariants. The single new point of
  \<^verbatim>\<open>fetchMarketData\<close>, built from a latest bar with a positive close that is not newer than
  now, has high at least max(open, close), low at most min(open, close), positive open and
  high and a non-negative volume; its close and low are positive as well when
  0.0007 * sqrt(elapsed minutes) is at most 0.999.
\<close>

theorem generated_bars_invariants:
  assumes "\<forall>j. 0 \<le> rand j \<and> rand j < 1"
  shows "list_all bar_invariants (backfill_bars sampleVolatility smb now n rand k) \<and>
         list_all bar_invariants (backfill_bars simulatedVolatility smb now n rand k) \<and>
         list_all bar_invariants (generateHistoricalSimulation smb n now rand k) \<and>
         (0 < bclose latest \<and> timestamp latest \<le> now \<longrightarrow>
            (\<exists>b. newDataPoint smb now latest (rand k) (rand (k + 1)) (rand (k + 2)) (rand (k + 3))
                   = Some b \<and>
                 max (bopen b) (bclose b) \<le> high b \<and> low b \<le> min (bopen b) (bclose b) \<and>
                 0 < bopen b \<and> 0 < high b \<and> 0 \<le> volume b \<and>
                 (0.0007 * sqrt (real_of_int (now - timestamp latest) / (1000 * 60)) \<le> 0.999
                    \<longrightarrow> bar_invariants b)))"
proof (intro conjI impI)
  show "list_all bar_invariants (backfill_bars sampleVolatility smb now n rand k)"
    by (rule backfill_bars_invariants[OF sampleVolatility_bounds assms])
  show "list_all bar_invariants (backfill_bars simulatedVolatility smb now n rand k)"
    by (rule backfill_bars_invariants[OF simulatedVolatility_bounds assms])
  show "list_all bar_invariants (generateHistoricalSimulation smb n now rand k)"
    unfolding generateHistoricalSimulation_def
    by (rule historical_loop_invariants[OF assms basePrice_pos])
next
  assume "0 < bclose latest \<and> timestamp latest \<le> now"
  then show "\<exists>b. newDataPoint smb now latest (rand k) (rand (k + 1)) (rand (k + 2)) (rand (k + 3))
                   = Some b \<and>
                 max (bopen b) (bclose b) \<le> high b \<and> low b \<le> min (bopen b) (bclose b) \<and>
                 0 < bopen b \<and> 0 < high b \<and> 0 \<le> volume b \<and>
                 (0.0007 * sqrt (real_of_int (now - timestamp latest) / (1000 * 60)) \<le> 0.999
                    \<longrightarrow> bar_invariants b)"
    using assms by (intro newDataPoint_invariants) auto
qed

lemma sqrt_4000000: "sqrt 4000000 = 2000"
proof -
  have "sqrt (2000\<^sup>2) = \<bar>2000\<bar>" by (rule real_sqrt_abs)
  then show ?thesis by simp
qed

text \<open>
  Claim C3 as stated fails for the incremental mode: 4,000,000 minutes after a bar that
  closed at 100, the draw 0.1 gives the new point the close -12.
\<close>

theorem incremental_bar_counterexample:
  "map_option bclose
     (newDataPoint ''SPY'' 240000000000
        \<lparr>symbol = ''SPY'', timestamp = 0, bopen = 100, high = 101, low = 99, bclose = 100,
           volume = 1000, source = ''SIMULATED''\<rparr> (1 / 10) (1 / 2) (1 / 2) (1 / 2)) = Some (- 12) \<and>
   map_option bar_invariants
     (newDataPoint ''SPY'' 240000000000
        \<lparr>symbol = ''SPY'', timestamp = 0, bopen = 100, high = 101, low = 99, bclose = 100,
           volume = 1000, source = ''SIMULATED''\<rparr> (1 / 10) (1 / 2) (1 / 2) (1 / 2)) = Some False"
  by (simp add: newDataPoint_def Let_def sqrt_4000000 bar_invariants_def)

theorem generated_bars_invariants_witness:
  "list_all bar_invariants (backfill_bars sampleVolatility ''SPY'' 6000000 20 (\<lambda>j. 1 / 2) 0) \<and>
   list_all bar_invariants (backfill_bars simulatedVolatility ''SPY'' 6000000 20 (\<lambda>j. 1 / 2) 0) \<and>
   list_all bar_invariants (generateHistoricalSimulation ''SPY'' 20 6000000 (\<lambda>j. 1 / 2) 0) \<and>
   map_option bar_invariants
     (newDataPoint ''SPY'' 6000000
        \<lparr>symbol = ''SPY'', timestamp = 5940000, bopen = 100, high = 101, low = 99, bclose = 100,
           volume = 1000, source = ''SIMULATED''\<rparr> (1 / 2) (1 / 2) (1 / 2) (1 / 2)) = Some True"
proof -
  have r: "\<forall>j::nat. (0::real) \<le> 1 / 2 \<and> (1::real) / 2 < 1" by simp
  have s: "0.0007 * sqrt (real_of_int (6000000 - 5940000) / (1000 * 60)) \<le> 0.999" by simp
  show ?thesis
    using generated_bars_invariants[of "\<lambda>j. 1 / 2" "''SPY''" 6000000 20 0
        "\<lparr>symbol = ''SPY'', timestamp = 5940000, bopen = 100, high = 101, low = 99, bclose = 100,
           volume = 1000, source = ''SIMULATED''\<rparr>", OF r] s
    by auto
qed

section \<open>Cache invalidation\<close>

lemma js_includes_sublist: "js_includes key p = sublist p key"
  by (induction key) (auto simp: sublist_Cons_right)

lemma foldl_cache_del:
  "foldl (\<lambda>c' key. cache_del key c') c ks = filter (\<lambda>kv. fst kv \<notin> set ks) c"
proof (induction ks arbitrary: c)
  case Nil
  then show ?case by simp
next
  case (Cons k ks)
  show ?case
    by (simp add: Cons.IH) (simp add: cache_del_def conj_commute)
qed

lemma invalidateCache_filter:
  "invalidateCache pattern c = filter (\<lambda>kv. \<not> sublist pattern (fst kv)) c"
proof -
  have "filter (\<lambda>kv. fst kv \<notin> set (filter (\<lambda>key. js_includes key pattern) (cache_keys c))) c
        = filter (\<lambda>kv. \<not> sublist pattern (fst kv)) c"
    by (rule filter_cong) (auto simp: cache_keys_def js_includes_sublist)
  then show ?thesis
    by (simp add: invalidateCache_def Let_def foldl_cache_del)
qed

lemma map_of_filter_key:
  "map_of (filter (\<lambda>kv. P (fst kv)) c) k = (if P k then map_of c k else None)"
  by (induction c) auto

text \<open>
  Claim C8. After \<^verbatim>\<open>invalidateCache(pattern)\<close> a key that contains the pattern as a substring
  has no entry, and every other key has the entry (payload and expiry) it had before.
\<close>

theorem invalidateCache_deletes_matching_keys:
  "map_of (invalidateCache pattern c) key =
     (if sublist pattern key then None else map_of c key)"
  using map_of_filter_key[of "\<lambda>k. \<not> sublist pattern k" c key]
  by (simp add: invalidateCache_filter)

section \<open>Validation on save\<close>

lemma save_accepts_iff:
  "(\<exists>ds'. save ds b = Inr ds') \<longleftrightarrow>
     (schema_symbol_match (symbol (apply_setters b)) \<and> 0 < bopen b \<and> bopen b \<le> high b \<and>
      low b \<le> bopen b \<and> 0 < bclose b \<and> 0 \<le> volume b \<and>
      source b \<in> set [''SIMULATED'', ''ALPHA_VANTAGE'', ''YAHOO'', ''IEX'', ''CUSTOM''] \<and>
      \<not> list_ex (same_key (apply_setters b)) ds)"
  by (auto simp: save_def Let_def schema_valid_def apply_setters_def)

text \<open>
  Claim C4 as stated fails: a bar that opens at 100, closes at 110 and has the high 105
  (below its close) passes every validator and is stored.
\<close>

theorem save_accepts_high_below_close:
  "save [] \<lparr>symbol = ''SPY'', timestamp = 0, bopen = 100, high = 105, low = 99, bclose = 110,
            volume = 1000, source = ''SIMULATED''\<rparr>
   = Inr [\<lparr>symbol = ''SPY'', timestamp = 0, bopen = 100, high = 105, low = 99, bclose = 110,
            volume = 1000, source = ''SIMULATED''\<rparr>]"
  by (simp add: save_def Let_def schema_valid_def apply_setters_def schema_symbol_match_def
        js_toUpperCase_def js_trim_def is_whitespace_def is_lower_def is_upper_def is_digit_def)

text \<open>
  Claim C4, as the code has it. The validators compare high and low with the open only:
  a bar whose high is below its open, or whose low is above its open, is rejected with a
  validation error, whatever the collection holds, and nothing is stored.
\<close>

theorem save_rejects_high_or_low_against_open:
  assumes "high b < bopen b \<or> bopen b < low b"
  shows "save ds b = Inl ValidationError"
  using assms by (auto simp: save_def Let_def schema_valid_def apply_setters_def)

theorem save_rejects_high_or_low_against_open_witness:
  "save [] \<lparr>symbol = ''SPY'', timestamp = 0, bopen = 100, high = 99, low = 98, bclose = 98.5,
            volume = 1000, source = ''SIMULATED''\<rparr> = Inl ValidationError"
  by (rule save_rejects_high_or_low_against_open) simp

section \<open>Symbol validation at the routes\<close>

lemma validateRequest_rejects_nonempty:
  "s \<noteq> [] \<Longrightarrow> \<not> route_symbol_match s \<Longrightarrow> sentiment_entry e (Some s) w = (Reply400, w)"
  by (simp add: sentiment_entry_def validateRequest_def)

lemma symbolValidation_rejects: "\<not> route_symbol_match s \<Longrightarrow> \<not> symbolValidation (Some s)"
  by (simp add: symbolValidation_def)

text \<open>
  Claim C7, on the code. The empty symbol fails the pattern and the validation chain of
  the market routes refuses it, but \<^verbatim>\<open>validateRequest\<close> lets it through (the empty string
  is falsy): the sentiment route then calls \<^verbatim>\<open>getLatestMarketData\<close>, which calls
  \<^verbatim>\<open>generateSimulatedData\<close>, and answers 404.
\<close>

theorem sentiment_empty_symbol_not_rejected:
  "\<not> route_symbol_match [] \<and>
   \<not> symbolValidation (Some []) \<and>
   sentiment_entry e (Some []) w = (Reply404, w\<lparr>simulated_calls := Suc (simulated_calls w)\<rparr>)"
  by (simp add: route_symbol_match_def symbolValidation_def sentiment_entry_def validateRequest_def
        getLatestMarketData_def generateSimulatedData_def Let_def)

section \<open>The histogram in the sentiment score\<close>

lemma histogram_score_zero:
  "2 \<le> length marketData \<Longrightarrow> histogram_score h marketData = Inr 0"
  by (cases h) (auto simp: histogram_score_def previous_histogram_def js_gt_def js_lt_def)

text \<open>
  Taken alone, the block never adds the histogram weight: the handler compares with
  \<^verbatim>\<open>marketData[marketData.length - 2].macd?.histogram\<close>, which is \<^verbatim>\<open>undefined\<close> for every
  bar, so with at least two bars the MACD part of the score is the line-against-signal
  weight alone, whatever histogram it is given.
\<close>

lemma histogram_never_scores:
  assumes "2 \<le> length marketData" "line m \<noteq> Null" "signal m \<noteq> Null"
  shows "macd_score m marketData = Inr (if js_gt (line m) (signal m) then 0.75 else - 0.75)"
  using assms by (simp add: macd_score_def histogram_score_zero)





section \<open>The service: fallback, cases of a read\<close>

lemma length_backfill_bars [simp]: "length (backfill_bars vf s now n rand k) = n"
  by (simp add: backfill_bars_def)

lemma backfill_bar_fields [simp]:
  "symbol (backfill_bar vf s now n i r1 r2 r3 r4 r5) = s"
  "source (backfill_bar vf s now n i r1 r2 r3 r4 r5) = ''SIMULATED''"
  "timestamp (backfill_bar vf s now n i r1 r2 r3 r4 r5) = now - (int n - int i) * 5 * 60000"
  by (simp_all add: backfill_bar_def Let_def)

lemma backfill_bars_symbol: "list_all (\<lambda>b. symbol b = s) (backfill_bars vf s now n rand k)"
  by (simp add: backfill_bars_def list_all_iff)

lemma backfill_bars_source:
  "list_all (\<lambda>b. source b = ''SIMULATED'') (backfill_bars vf s now n rand k)"
  by (simp add: backfill_bars_def list_all_iff)

lemma backfill_bars_timestamps:
  "map timestamp (backfill_bars vf s now n rand k)
   = map (\<lambda>i. now - (int n - int i) * 5 * 60000) [0 ..< n]"
  by (simp add: backfill_bars_def)

lemma backfill_bars_strictly_sorted:
  "sorted_wrt (<) (map timestamp (backfill_bars vf s now n rand k))"
proof -
  have "sorted_wrt (<) [0 ..< n]" by simp
  then have "sorted_wrt (\<lambda>i j. now - (int n - int i) * 5 * 60000 < now - (int n - int j) * 5 * 60000)
               [0 ..< n]"
    by (rule sorted_wrt_mono_rel[rotated]) simp
  then show ?thesis
    by (simp add: backfill_bars_timestamps sorted_wrt_map)
qed

lemma backfill_bars_sorted: "sorted (map timestamp (backfill_bars vf s now n rand k))"
  using backfill_bars_strictly_sorted[of vf s now n rand k] by (simp add: strict_sorted_iff)

lemma backfill_bars_distinct: "distinct (map timestamp (backfill_bars vf s now n rand k))"
  using backfill_bars_strictly_sorted[of vf s now n rand k] by (simp add: strict_sorted_iff)

lemma generateSimulatedData_valid:
  assumes "s \<noteq> []" "\<not> invalid_count n"
  shows "fst (generateSimulatedData e s n w)
           = backfill_bars simulatedVolatility s (clock e (clock_calls w)) (nat n) (rnd e) (rnd_calls w)"
    and "simulated_calls (snd (generateSimulatedData e s n w)) = Suc (simulated_calls w)"
    and "store_errors (snd (generateSimulatedData e s n w)) = store_errors w"
    and "docs (snd (generateSimulatedData e s n w)) = docs w"
  using assms by (simp_all add: generateSimulatedData_def Let_def)


lemma store_rejects_fields [simp]:
  "store_errors (store_rejects w) = Suc (store_errors w)"
  "simulated_calls (store_rejects w) = simulated_calls w"
  "docs (store_rejects w) = docs w"
  "clock_calls (store_rejects w) = clock_calls w"
  "rnd_calls (store_rejects w) = rnd_calls w"
  "store_calls (store_rejects w) = Suc (store_calls w)"
  by (simp_all add: store_rejects_def)

text \<open>What \<^verbatim>\<open>generateSampleData\<close> leaves behind, case by case.\<close>

lemma generateSampleData_cases [consumes 2, case_names first_rejected exists insert_rejected inserted]:
  assumes "s \<noteq> []" "\<not> invalid_count n"
  obtains
    (first_rejected) "store_fails e (store_calls w)"
      "generateSampleData e s n w = (Thrown, store_rejects w)"
  | (exists) "\<not> store_fails e (store_calls w)" "find_symbol (docs w) s \<noteq> []"
      "generateSampleData e s n w = (Resolved, w\<lparr>store_calls := Suc (store_calls w)\<rparr>)"
  | (insert_rejected) "\<not> store_fails e (store_calls w)" "find_symbol (docs w) s = []"
      "store_fails e (Suc (store_calls w))"
      "generateSampleData e s n w =
         (Thrown, store_rejects (w\<lparr>store_calls := Suc (store_calls w),
                                    clock_calls := Suc (clock_calls w),
                                    rnd_calls := rnd_calls w + 5 * nat n\<rparr>))"
  | (inserted) "\<not> store_fails e (store_calls w)" "find_symbol (docs w) s = []"
      "\<not> store_fails e (Suc (store_calls w))"
      "generateSampleData e s n w =
         (Resolved,
          w\<lparr>store_calls := Suc (Suc (store_calls w)),
            clock_calls := Suc (clock_calls w),
            rnd_calls := rnd_calls w + 5 * nat n,
            docs := fst (insertMany (docs w)
                     (backfill_bars sampleVolatility s (clock e (clock_calls w)) (nat n)
                        (rnd e) (rnd_calls w)))\<rparr>)"
proof -
  consider "store_fails e (store_calls w)"
    | "\<not> store_fails e (store_calls w)" "find_symbol (docs w) s \<noteq> []"
    | "\<not> store_fails e (store_calls w)" "find_symbol (docs w) s = []" "store_fails e (Suc (store_calls w))"
    | "\<not> store_fails e (store_calls w)" "find_symbol (docs w) s = []" "\<not> store_fails e (Suc (store_calls w))"
    by blast
  then show thesis
  proof cases
    case 1
    then show ?thesis using assms by (intro first_rejected) (simp_all add: generateSampleData_def)
  next
    case 2
    then show ?thesis using assms by (intro exists) (simp_all add: generateSampleData_def Let_def)
  next
    case 3
    then show ?thesis using assms
      by (intro insert_rejected) (simp_all add: generateSampleData_def Let_def store_rejects_def)
  next
    case 4
    then show ?thesis using assms
      by (intro inserted) (simp_all add: generateSampleData_def Let_def)
  qed
qed

lemma invalid_count_max: "\<not> invalid_count n \<Longrightarrow> \<not> invalid_count (max n 100)"
  by (auto simp: invalid_count_def max_def)

lemma find_latest_Nil: "find_latest ds s n = [] \<longleftrightarrow> n = 0 \<or> find_symbol ds s = []"
  by (auto simp: find_latest_def take_eq_Nil dest: arg_cong[where f = length])

text \<open>The four ways a call of \<^verbatim>\<open>getLatestMarketData\<close> with accepted arguments can go.\<close>

lemma getLatestMarketData_cases
  [consumes 2, case_names fallback_after_failure served_existing served_inserted fallback_empty]:
  assumes "s \<noteq> []" "\<not> invalid_count limit"
  obtains
    (fallback_after_failure) w0 where
      "getLatestMarketData e s limit w = generateSimulatedData e s limit w0"
      "store_errors w0 = Suc (store_errors w)" "simulated_calls w0 = simulated_calls w"
      "store_fails e (store_calls w0 - 1)"
  | (served_existing)
      "find_symbol (docs w) s \<noteq> []"
      "\<not> store_fails e (store_calls w)" "\<not> store_fails e (Suc (store_calls w))"
      "getLatestMarketData e s limit w =
         (rev (find_latest (docs w) s (nat limit)), w\<lparr>store_calls := Suc (Suc (store_calls w))\<rparr>)"
  | (served_inserted) ds' where
      "find_symbol (docs w) s = []"
      "ds' = fst (insertMany (docs w)
                (backfill_bars sampleVolatility s (clock e (clock_calls w)) (nat (max limit 100))
                   (rnd e) (rnd_calls w)))"
      "find_symbol ds' s \<noteq> []"
      "getLatestMarketData e s limit w =
         (rev (find_latest ds' s (nat limit)),
          w\<lparr>store_calls := Suc (Suc (Suc (store_calls w))),
            clock_calls := Suc (clock_calls w),
            rnd_calls := rnd_calls w + 5 * nat (max limit 100),
            docs := ds'\<rparr>)"
  | (fallback_empty) w0 where
      "find_symbol (docs w) s = []"
      "docs w0 = fst (insertMany (docs w)
                (backfill_bars sampleVolatility s (clock e (clock_calls w)) (nat (max limit 100))
                   (rnd e) (rnd_calls w)))"
      "find_symbol (docs w0) s = []"
      "getLatestMarketData e s limit w = generateSimulatedData e s limit w0"
      "store_errors w0 = store_errors w" "simulated_calls w0 = simulated_calls w"
proof -
  have lim: "nat limit \<noteq> 0" using assms(2) by (auto simp: invalid_count_def)
  note v = assms(1) invalid_count_max[OF assms(2)]
  from v show thesis
  proof (cases rule: generateSampleData_cases[where e = e and w = w])
    case first_rejected
    then show ?thesis
      using assms by (intro fallback_after_failure[of "store_rejects w"])
        (simp_all add: getLatestMarketData_def)
  next
    case exists
    show ?thesis
    proof (cases "store_fails e (Suc (store_calls w))")
      case True
      then show ?thesis using assms exists
        by (intro fallback_after_failure[of "store_rejects (w\<lparr>store_calls := Suc (store_calls w)\<rparr>)"])
          (simp_all add: getLatestMarketData_def)
    next
      case False
      then show ?thesis using assms exists lim
        by (intro served_existing) (simp_all add: getLatestMarketData_def Let_def find_latest_Nil)
    qed
  next
    case insert_rejected
    then show ?thesis using assms
      by (intro fallback_after_failure[of "store_rejects (w\<lparr>store_calls := Suc (store_calls w),
                                    clock_calls := Suc (clock_calls w),
                                    rnd_calls := rnd_calls w + 5 * nat (max limit 100)\<rparr>)"])
        (simp_all add: getLatestMarketData_def)
  next
    case inserted
    let ?ds = "fst (insertMany (docs w)
                (backfill_bars sampleVolatility s (clock e (clock_calls w)) (nat (max limit 100))
                   (rnd e) (rnd_calls w)))"
    let ?w1 = "w\<lparr>store_calls := Suc (Suc (store_calls w)),
            clock_calls := Suc (clock_calls w),
            rnd_calls := rnd_calls w + 5 * nat (max limit 100),
            docs := ?ds\<rparr>"
    show ?thesis
    proof (cases "store_fails e (Suc (Suc (store_calls w)))")
      case True
      then show ?thesis using assms inserted
        by (intro fallback_after_failure[of "store_rejects ?w1"])
          (simp_all add: getLatestMarketData_def)
    next
      case False
      show ?thesis
      proof (cases "find_symbol ?ds s = []")
        case True
        then show ?thesis using assms inserted False
          by (intro fallback_empty[of "?w1\<lparr>store_calls := Suc (store_calls ?w1)\<rparr>"])
            (simp_all add: getLatestMarketData_def Let_def find_latest_Nil)
      next
        case ne: False
        then show ?thesis using assms inserted False lim
          by (intro served_inserted[of ?ds])
            (simp_all add: getLatestMarketData_def Let_def find_latest_Nil)
      qed
    qed
  qed
qed

lemma fallback_result:
  assumes "s \<noteq> []" "\<not> invalid_count limit"
  shows "length (fst (generateSimulatedData e s limit w0)) = nat limit"
    and "fst (generateSimulatedData e s limit w0) \<noteq> []"
    and "list_all (\<lambda>b. symbol b = s) (fst (generateSimulatedData e s limit w0))"
    and "list_all (\<lambda>b. source b = ''SIMULATED'') (fst (generateSimulatedData e s limit w0))"
    and "sorted (map timestamp (fst (generateSimulatedData e s limit w0)))"
proof -
  have lim: "0 < nat limit" using assms(2) by (auto simp: invalid_count_def)
  note g = generateSimulatedData_valid(1)[OF assms, of e w0]
  show "length (fst (generateSimulatedData e s limit w0)) = nat limit" by (simp add: g)
  then show "fst (generateSimulatedData e s limit w0) \<noteq> []" using lim by auto
  show "list_all (\<lambda>b. symbol b = s) (fst (generateSimulatedData e s limit w0))"
    by (simp add: g backfill_bars_symbol)
  show "list_all (\<lambda>b. source b = ''SIMULATED'') (fst (generateSimulatedData e s limit w0))"
    by (simp add: g backfill_bars_source)
  show "sorted (map timestamp (fst (generateSimulatedData e s limit w0)))"
    by (simp add: g backfill_bars_sorted)
qed


lemma cast_symbol_SPY [simp]: "cast_symbol ''SPY'' = ''SPY''"
  by (simp add: cast_symbol_def js_toUpperCase_def js_trim_def is_whitespace_def is_lower_def)

lemma rev_find_latest:
  "rev (find_latest ds s n)
   = drop (length (find_symbol ds s) - n) (sort_key timestamp (find_symbol ds s))"
  by (simp add: find_latest_def take_rev)

lemma served_sorted: "sorted (map timestamp (rev (find_latest ds s n)))"
proof -
  have "sorted (map timestamp (sort_key timestamp (find_symbol ds s)))"
    by (rule sorted_sort_key)
  then have "sorted (drop (length (find_symbol ds s) - n)
                       (map timestamp (sort_key timestamp (find_symbol ds s))))"
    by (rule sorted_wrt_drop)
  then show ?thesis by (simp add: rev_find_latest drop_map)
qed

lemma served_symbol: "list_all (\<lambda>b. symbol b = cast_symbol s) (rev (find_latest ds s n))"
proof -
  have "set (rev (find_latest ds s n)) \<subseteq> set (find_symbol ds s)"
    unfolding rev_find_latest using set_drop_subset[of _ "sort_key timestamp (find_symbol ds s)"]
    by simp
  then show ?thesis by (auto simp: list_all_iff find_symbol_def)
qed

lemma served_length: "length (rev (find_latest ds s n)) = min n (length (find_symbol ds s))"
  by (simp add: find_latest_def)

text \<open>The served bars are the tail of the stored bars of the symbol, put in time order.\<close>

lemma served_is_latest:
  "\<exists>older. mset (older @ rev (find_latest ds s n)) = mset (find_symbol ds s) \<and>
           sorted (map timestamp (older @ rev (find_latest ds s n)))"
proof -
  let ?S = "sort_key timestamp (find_symbol ds s)"
  let ?k = "length (find_symbol ds s) - n"
  have "take ?k ?S @ rev (find_latest ds s n) = ?S"
    by (simp add: rev_find_latest)
  moreover have "mset ?S = mset (find_symbol ds s)" by simp
  moreover have "sorted (map timestamp ?S)" by (rule sorted_sort_key)
  ultimately show ?thesis by metis
qed

text \<open>A read of a symbol that has bars, with the two database operations answered.\<close>

lemma getLatestMarketData_existing:
  assumes "s \<noteq> []" "\<not> invalid_count limit" "find_symbol (docs w) s \<noteq> []"
    and "\<not> store_fails e (store_calls w)" "\<not> store_fails e (Suc (store_calls w))"
  shows "getLatestMarketData e s limit w =
           (rev (find_latest (docs w) s (nat limit)), w\<lparr>store_calls := Suc (Suc (store_calls w))\<rparr>)"
proof -
  have lim: "nat limit \<noteq> 0" using assms(2) by (auto simp: invalid_count_def)
  have "generateSampleData e s (max limit 100) w = (Resolved, w\<lparr>store_calls := Suc (store_calls w)\<rparr>)"
    using assms invalid_count_max[OF assms(2)] by (simp add: generateSampleData_def Let_def)
  then show ?thesis
    using assms lim by (simp add: getLatestMarketData_def Let_def find_latest_Nil)
qed

section \<open>insertMany of fresh bars\<close>

lemma same_key_iff: "same_key a b \<longleftrightarrow> (symbol a, timestamp a) = (symbol b, timestamp b)"
  by (auto simp: same_key_def)

lemma foldl_insert_unordered_all:
  assumes "list_all (\<lambda>b. schema_valid (apply_setters b)) new"
    and "distinct (map (\<lambda>b. (symbol (apply_setters b), timestamp (apply_setters b))) new)"
    and "list_all (\<lambda>b. \<not> list_ex (same_key (apply_setters b)) ds) new"
  shows "foldl insert_unordered (ds, flag) new = (ds @ map apply_setters new, flag)"
  using assms
proof (induction new arbitrary: ds)
  case Nil
  then show ?case by simp
next
  case (Cons b new)
  have step: "insert_unordered (ds, flag) b = (ds @ [apply_setters b], flag)"
    using Cons.prems by (simp add: insert_unordered_def Let_def)
  have "list_all (\<lambda>b'. \<not> list_ex (same_key (apply_setters b')) (ds @ [apply_setters b])) new"
    using Cons.prems(2,3) by (force simp: list_all_iff list_ex_iff same_key_iff image_iff)
  then have "foldl insert_unordered (ds @ [apply_setters b], flag) new
             = ((ds @ [apply_setters b]) @ map apply_setters new, flag)"
    using Cons.prems by (intro Cons.IH) simp_all
  then show ?case by (simp add: step)
qed

lemma no_whitespace_trim: "list_all (\<lambda>c. \<not> is_whitespace c) s \<Longrightarrow> js_trim s = s"
proof -
  assume a: "list_all (\<lambda>c. \<not> is_whitespace c) s"
  have d: "dropWhile is_whitespace xs = xs" if "list_all (\<lambda>c. \<not> is_whitespace c) xs" for xs
    using that by (cases xs) simp_all
  have "list_all (\<lambda>c. \<not> is_whitespace c) (rev s)" using a by (simp add: list_all_iff)
  then show ?thesis using a by (simp add: js_trim_def d)
qed

lemma upper_of_lower: "is_lower c \<Longrightarrow> is_upper (char_of (of_char c - 32 :: nat))"
proof -
  assume "is_lower c"
  then have r: "97 \<le> (of_char c :: nat)" "(of_char c :: nat) \<le> 122" by (simp_all add: is_lower_def)
  then have "(of_char c - 32 :: nat) mod 256 = of_char c - 32" by simp
  then have "(of_char (char_of (of_char c - 32 :: nat)) :: nat) = of_char c - 32"
    by (simp add: of_char_of)
  moreover have "65 \<le> (of_char c - 32 :: nat) \<and> (of_char c - 32 :: nat) \<le> 90"
    using r by linarith
  ultimately show ?thesis by (simp add: is_upper_def)
qed

text \<open>A symbol that the routes accept is stored in a form that the schema accepts.\<close>

lemma route_symbol_cast:
  assumes "route_symbol_match s"
  shows "schema_symbol_match (cast_symbol s)"
proof -
  have c: "list_all (\<lambda>c. is_upper c \<or> is_lower c \<or> is_digit c \<or> c = CHR ''.'') s"
    and len: "1 \<le> length s" "length s \<le> 10"
    using assms by (simp_all add: route_symbol_match_def)
  have "list_all (\<lambda>c. \<not> is_whitespace c) s"
    using c by (auto simp: list_all_iff is_whitespace_def is_upper_def is_lower_def is_digit_def)
  then have t: "js_trim s = s" by (rule no_whitespace_trim)
  have "list_all (\<lambda>c. is_upper c \<or> is_digit c \<or> c = CHR ''.'') (js_toUpperCase s)"
    using c upper_of_lower
    by (auto simp: js_toUpperCase_def list_all_iff is_lower_def is_upper_def is_digit_def)
  then show ?thesis using len by (simp add: cast_symbol_def t schema_symbol_match_def js_toUpperCase_def)
qed

lemma apply_setters_fields [simp]:
  "symbol (apply_setters b) = cast_symbol (symbol b)"
  "timestamp (apply_setters b) = timestamp b"
  "bopen (apply_setters b) = bopen b"
  "high (apply_setters b) = high b"
  "low (apply_setters b) = low b"
  "bclose (apply_setters b) = bclose b"
  "volume (apply_setters b) = volume b"
  "source (apply_setters b) = source b"
  by (simp_all add: apply_setters_def cast_symbol_def)

lemma insertMany_sample_bars:
  assumes "route_symbol_match s" "\<forall>j. 0 \<le> rand j \<and> rand j < 1" "find_symbol ds s = []"
  shows "insertMany ds (backfill_bars sampleVolatility s now n rand k)
         = (ds @ map apply_setters (backfill_bars sampleVolatility s now n rand k), False)"
proof -
  let ?new = "backfill_bars sampleVolatility s now n rand k"
  have inv: "list_all bar_invariants ?new"
    by (rule backfill_bars_invariants[OF sampleVolatility_bounds assms(2)])
  have sym: "list_all (\<lambda>b. symbol b = s) ?new" by (rule backfill_bars_symbol)
  have src: "list_all (\<lambda>b. source b = ''SIMULATED'') ?new" by (rule backfill_bars_source)
  have valid: "list_all (\<lambda>b. schema_valid (apply_setters b)) ?new"
    using inv sym src route_symbol_cast[OF assms(1)]
    by (auto simp: list_all_iff schema_valid_def bar_invariants_def)
  have "distinct (map timestamp ?new)" by (rule backfill_bars_distinct)
  then have d: "distinct (map (\<lambda>b. (symbol (apply_setters b), timestamp (apply_setters b))) ?new)"
    by (auto simp: distinct_map inj_on_def)
  have "\<forall>d \<in> set ds. symbol d \<noteq> cast_symbol s"
    using assms(3) by (auto simp: find_symbol_def filter_empty_conv)
  then have fresh: "list_all (\<lambda>b. \<not> list_ex (same_key (apply_setters b)) ds) ?new"
    using sym by (auto simp: list_all_iff list_ex_iff same_key_def)
  show ?thesis
    unfolding insertMany_def
    by (rule foldl_insert_unordered_all[OF valid d fresh])
qed

text \<open>
  A read of a symbol that has no bar, with the three database operations answered: the
  generated bars are stored, and the read is served from them.
\<close>

lemma getLatestMarketData_inserted:
  assumes "route_symbol_match s" "\<not> invalid_count limit" "\<forall>j. 0 \<le> rnd e j \<and> rnd e j < 1"
    and "find_symbol (docs w) s = []"
    and "\<not> store_fails e (store_calls w)" "\<not> store_fails e (Suc (store_calls w))"
        "\<not> store_fails e (Suc (Suc (store_calls w)))"
  shows "getLatestMarketData e s limit w =
           (drop (nat (max limit 100) - nat limit)
              (map apply_setters
                 (backfill_bars sampleVolatility s (clock e (clock_calls w)) (nat (max limit 100))
                    (rnd e) (rnd_calls w))),
            w\<lparr>store_calls := Suc (Suc (Suc (store_calls w))),
              clock_calls := Suc (clock_calls w),
              rnd_calls := rnd_calls w + 5 * nat (max limit 100),
              docs := docs w @ map apply_setters
                 (backfill_bars sampleVolatility s (clock e (clock_calls w)) (nat (max limit 100))
                    (rnd e) (rnd_calls w))\<rparr>)"
proof -
  let ?new = "backfill_bars sampleVolatility s (clock e (clock_calls w)) (nat (max limit 100))
                (rnd e) (rnd_calls w)"
  let ?st = "map apply_setters ?new"
  have s: "s \<noteq> []" using assms(1) by (auto simp: route_symbol_match_def)
  have lim: "nat limit \<noteq> 0" using assms(2) by (auto simp: invalid_count_def)
  have ins: "fst (insertMany (docs w) ?new) = docs w @ ?st"
    using insertMany_sample_bars[OF assms(1,3,4)] by simp
  have gen: "generateSampleData e s (max limit 100) w =
         (Resolved,
          w\<lparr>store_calls := Suc (Suc (store_calls w)),
            clock_calls := Suc (clock_calls w),
            rnd_calls := rnd_calls w + 5 * nat (max limit 100),
            docs := docs w @ ?st\<rparr>)"
    using s assms(4,5,6) invalid_count_max[OF assms(2)]
    by (simp add: generateSampleData_def Let_def ins)
  have fs: "find_symbol (docs w @ ?st) s = ?st"
    using assms(4) backfill_bars_symbol[of s sampleVolatility "clock e (clock_calls w)"
            "nat (max limit 100)" "rnd e" "rnd_calls w"]
    by (simp add: find_symbol_def list_all_iff)
  have len: "length ?st = nat (max limit 100)" by simp
  have "0 < nat (max limit 100)" by (simp add: max_def)
  then have ne: "?st \<noteq> []" using len by (metis length_greater_0_conv)
  have srt: "sorted (map timestamp ?st)"
    by (simp add: comp_def backfill_bars_sorted[unfolded list.map_comp comp_def])
  have data: "rev (find_latest (docs w @ ?st) s (nat limit)) = drop (nat (max limit 100) - nat limit) ?st"
    by (simp add: rev_find_latest fs sort_key_id_if_sorted[OF srt])
  have nonempty: "find_latest (docs w @ ?st) s (nat limit) \<noteq> []"
    using lim ne by (simp add: find_latest_Nil fs)
  show ?thesis
    using s assms(2,7) nonempty data
    by (simp add: getLatestMarketData_def gen Let_def)
qed

section \<open>Reads of the latest bars\<close>

text \<open>
  Claim C6. Let the collection hold twenty bars of symbol SPY. Then
  \<^verbatim>\<open>getLatestMarketData('SPY', 10)\<close> returns exactly ten bars, in ascending order of
  timestamp, all of symbol SPY, whatever the database does. When the two database
  operations of the call are answered, the ten bars are the most recent of the stored SPY
  bars: together with ten older ones they are all the stored SPY bars, in time order; and
  the collection is left as it was.
\<close>

theorem latest_ten_of_twenty:
  assumes "length (filter (\<lambda>b. symbol b = ''SPY'') (docs w)) = 20"
  shows "length (fst (getLatestMarketData e ''SPY'' 10 w)) = 10 \<and>
         sorted (map timestamp (fst (getLatestMarketData e ''SPY'' 10 w))) \<and>
         list_all (\<lambda>b. symbol b = ''SPY'') (fst (getLatestMarketData e ''SPY'' 10 w)) \<and>
         (\<not> store_fails e (store_calls w) \<and> \<not> store_fails e (Suc (store_calls w)) \<longrightarrow>
            (\<exists>older. length older = 10 \<and>
                      mset (older @ fst (getLatestMarketData e ''SPY'' 10 w))
                        = mset (filter (\<lambda>b. symbol b = ''SPY'') (docs w)) \<and>
                      sorted (map timestamp (older @ fst (getLatestMarketData e ''SPY'' 10 w)))) \<and>
            docs (snd (getLatestMarketData e ''SPY'' 10 w)) = docs w)"
proof -
  have v: "''SPY'' \<noteq> []" "\<not> invalid_count 10" by (simp_all add: invalid_count_def)
  have fs: "find_symbol (docs w) ''SPY'' = filter (\<lambda>b. symbol b = ''SPY'') (docs w)"
    by (simp add: find_symbol_def)
  have len: "length (find_symbol (docs w) ''SPY'') = 20" using assms by (simp add: fs)
  then have ne: "find_symbol (docs w) ''SPY'' \<noteq> []" by auto
  have served: "length (rev (find_latest (docs w) ''SPY'' 10)) = 10"
    using len served_length[of "docs w" "''SPY''" 10] by simp
  have basic: "length (fst (getLatestMarketData e ''SPY'' 10 w)) = 10 \<and>
         sorted (map timestamp (fst (getLatestMarketData e ''SPY'' 10 w))) \<and>
         list_all (\<lambda>b. symbol b = ''SPY'') (fst (getLatestMarketData e ''SPY'' 10 w))"
    using v
  proof (cases rule: getLatestMarketData_cases[where e = e and w = w])
    case (fallback_after_failure w0)
    then show ?thesis using fallback_result[OF v, of e w0] by simp
  next
    case served_existing
    then show ?thesis
      using served_sorted[of "docs w" "''SPY''" "10"] served_symbol[of "''SPY''" "docs w" "10"]
        served
      by simp
  next
    case (served_inserted ds')
    then show ?thesis using ne by simp
  next
    case (fallback_empty w0)
    then show ?thesis using ne by simp
  qed
  have healthy: "(\<exists>older. length older = 10 \<and>
                      mset (older @ fst (getLatestMarketData e ''SPY'' 10 w))
                        = mset (filter (\<lambda>b. symbol b = ''SPY'') (docs w)) \<and>
                      sorted (map timestamp (older @ fst (getLatestMarketData e ''SPY'' 10 w)))) \<and>
            docs (snd (getLatestMarketData e ''SPY'' 10 w)) = docs w"
    if ok: "\<not> store_fails e (store_calls w) \<and> \<not> store_fails e (Suc (store_calls w))"
  proof -
    have r: "getLatestMarketData e ''SPY'' 10 w =
               (rev (find_latest (docs w) ''SPY'' 10), w\<lparr>store_calls := Suc (Suc (store_calls w))\<rparr>)"
      using getLatestMarketData_existing[OF v ne, of e] ok by simp
    from served_is_latest[of "docs w" "''SPY''" 10] obtain older where
      o: "mset (older @ rev (find_latest (docs w) ''SPY'' 10)) = mset (find_symbol (docs w) ''SPY'')"
         "sorted (map timestamp (older @ rev (find_latest (docs w) ''SPY'' 10)))"
      by blast
    from o(1) have "length (older @ rev (find_latest (docs w) ''SPY'' 10)) = 20"
      using len by (metis size_mset)
    then have "length older = 10" using served by simp
    then show ?thesis using o r by (auto simp: fs)
  qed
  from basic healthy show ?thesis by blast
qed

theorem latest_ten_of_twenty_witness:
  "fst (getLatestMarketData
      \<lparr>rnd = \<lambda>j. 1 / 2, clock = \<lambda>j. 6000000, store_fails = \<lambda>k. False\<rparr> ''SPY'' 10
      \<lparr>docs = map (\<lambda>i. \<lparr>symbol = ''SPY'', timestamp = 300000 * int i, bopen = 450, high = 451,
                           low = 449, bclose = 450, volume = 1000, source = ''SIMULATED''\<rparr>) [0 ..< 20],
         rnd_calls = 0, clock_calls = 0, store_calls = 0, store_errors = 0, simulated_calls = 0\<rparr>)
   = map (\<lambda>i. \<lparr>symbol = ''SPY'', timestamp = 300000 * int i, bopen = 450, high = 451,
                  low = 449, bclose = 450, volume = 1000, source = ''SIMULATED''\<rparr>) [10 ..< 20] \<and>
   docs (snd (getLatestMarketData
      \<lparr>rnd = \<lambda>j. 1 / 2, clock = \<lambda>j. 6000000, store_fails = \<lambda>k. False\<rparr> ''SPY'' 10
      \<lparr>docs = map (\<lambda>i. \<lparr>symbol = ''SPY'', timestamp = 300000 * int i, bopen = 450, high = 451,
                           low = 449, bclose = 450, volume = 1000, source = ''SIMULATED''\<rparr>) [0 ..< 20],
         rnd_calls = 0, clock_calls = 0, store_calls = 0, store_errors = 0, simulated_calls = 0\<rparr>))
   = map (\<lambda>i. \<lparr>symbol = ''SPY'', timestamp = 300000 * int i, bopen = 450, high = 451,
                  low = 449, bclose = 450, volume = 1000, source = ''SIMULATED''\<rparr>) [0 ..< 20]"
proof -
  let ?f = "\<lambda>i. \<lparr>symbol = ''SPY'', timestamp = 300000 * int i, bopen = 450, high = 451,
                  low = 449, bclose = 450, volume = 1000, source = ''SIMULATED''\<rparr>"
  let ?e = "\<lparr>rnd = \<lambda>j. 1 / 2, clock = \<lambda>j. 6000000, store_fails = \<lambda>k. False\<rparr>"
  let ?w = "\<lparr>docs = map ?f [0 ..< 20],
             rnd_calls = 0, clock_calls = 0, store_calls = 0, store_errors = 0,
             simulated_calls = 0\<rparr>"
  have h: "length (filter (\<lambda>b. symbol b = ''SPY'') (docs ?w)) = 20"
    by (simp add: filter_map comp_def)
  have ok: "\<not> store_fails ?e (store_calls ?w) \<and> \<not> store_fails ?e (Suc (store_calls ?w))"
    by simp
  from latest_ten_of_twenty[OF h, of ?e] ok
  have d: "docs (snd (getLatestMarketData ?e ''SPY'' 10 ?w)) = docs ?w" by blast
  have fs: "find_symbol (map ?f [0 ..< 20]) ''SPY'' = map ?f [0 ..< 20]"
    by (simp add: find_symbol_def filter_map comp_def)
  have "sorted_wrt (\<lambda>i j. 300000 * int i \<le> 300000 * int j) [0 ..< 20]"
    by (rule sorted_wrt_mono_rel[OF _ sorted_wrt_upt]) simp
  then have srt: "sorted (map timestamp (map ?f [0 ..< 20]))"
    by (simp add: sorted_wrt_map comp_def)
  have ne: "find_symbol (docs ?w) ''SPY'' \<noteq> []" by (simp add: fs)
  have "getLatestMarketData ?e ''SPY'' 10 ?w =
          (rev (find_latest (docs ?w) ''SPY'' (nat 10)), ?w\<lparr>store_calls := Suc (Suc (store_calls ?w))\<rparr>)"
    by (rule getLatestMarketData_existing[OF _ _ ne]) (simp_all add: invalid_count_def)
  then have "fst (getLatestMarketData ?e ''SPY'' 10 ?w) = drop 10 (map ?f [0 ..< 20])"
    by (simp add: rev_find_latest fs sort_key_id_if_sorted[OF srt])
  then have "fst (getLatestMarketData ?e ''SPY'' 10 ?w) = map ?f [10 ..< 20]"
    by (simp add: drop_map)
  with d show ?thesis by simp
qed




text \<open>
  Claim C10. Let the symbol match the pattern of the routes, the limit lie between 1 and
  1000, every \<^verbatim>\<open>Math.random()\<close> result lie in [0, 1), and the three database operations of
  the call be answered. If the collection holds no bar of the symbol (in its stored,
  upper-case form), \<^verbatim>\<open>getLatestMarketData\<close> appends the max(limit, 100) bars that
  \<^verbatim>\<open>generateSampleData\<close> generates, as the schema stores them, and returns the last
  \<open>limit\<close> of them; if it holds one, the collection is left as it was.
\<close>

theorem read_writes_sample_bars:
  assumes "route_symbol_match s" "1 \<le> limit" "limit \<le> 1000"
    and "\<forall>j. 0 \<le> rnd e j \<and> rnd e j < 1"
    and "\<not> store_fails e (store_calls w)" "\<not> store_fails e (Suc (store_calls w))"
        "\<not> store_fails e (Suc (Suc (store_calls w)))"
  shows "(list_all (\<lambda>d. symbol d \<noteq> cast_symbol s) (docs w) \<longrightarrow>
            docs (snd (getLatestMarketData e s limit w))
              = docs w @ map apply_setters
                  (backfill_bars sampleVolatility s (clock e (clock_calls w))
                     (nat (max limit 100)) (rnd e) (rnd_calls w)) \<and>
            length (docs (snd (getLatestMarketData e s limit w)))
              = length (docs w) + nat (max limit 100) \<and>
            fst (getLatestMarketData e s limit w)
              = drop (nat (max limit 100) - nat limit)
                  (map apply_setters
                     (backfill_bars sampleVolatility s (clock e (clock_calls w))
                        (nat (max limit 100)) (rnd e) (rnd_calls w)))) \<and>
         (list_ex (\<lambda>d. symbol d = cast_symbol s) (docs w) \<longrightarrow>
            docs (snd (getLatestMarketData e s limit w)) = docs w)"
proof (intro conjI impI)
  have v: "s \<noteq> []" "\<not> invalid_count limit"
    using assms(1,2,3) by (auto simp: route_symbol_match_def invalid_count_def)
  {
    assume "list_all (\<lambda>d. symbol d \<noteq> cast_symbol s) (docs w)"
    then have empty: "find_symbol (docs w) s = []"
      by (auto simp: find_symbol_def filter_empty_conv list_all_iff)
    note r = getLatestMarketData_inserted[OF assms(1) v(2) assms(4) empty assms(5,6,7)]
    show "docs (snd (getLatestMarketData e s limit w))
              = docs w @ map apply_setters
                  (backfill_bars sampleVolatility s (clock e (clock_calls w))
                     (nat (max limit 100)) (rnd e) (rnd_calls w))"
      by (simp add: r)
    show "length (docs (snd (getLatestMarketData e s limit w)))
              = length (docs w) + nat (max limit 100)"
      by (simp add: r)
    show "fst (getLatestMarketData e s limit w)
              = drop (nat (max limit 100) - nat limit)
                  (map apply_setters
                     (backfill_bars sampleVolatility s (clock e (clock_calls w))
                        (nat (max limit 100)) (rnd e) (rnd_calls w)))"
      by (simp add: r)
  }
  {
    assume "list_ex (\<lambda>d. symbol d = cast_symbol s) (docs w)"
    then have ne: "find_symbol (docs w) s \<noteq> []"
      by (auto simp: find_symbol_def filter_empty_conv list_ex_iff)
    show "docs (snd (getLatestMarketData e s limit w)) = docs w"
      by (simp add: getLatestMarketData_existing[OF v ne assms(5,6)])
  }
qed

theorem read_writes_sample_bars_witness:
  "docs (snd (getLatestMarketData
      \<lparr>rnd = \<lambda>j. 1 / 2, clock = \<lambda>j. 6000000, store_fails = \<lambda>k. False\<rparr> ''spy'' 10
      \<lparr>docs = [], rnd_calls = 0, clock_calls = 0, store_calls = 0, store_errors = 0,
         simulated_calls = 0\<rparr>))
     = map apply_setters (backfill_bars sampleVolatility ''spy'' 6000000 100 (\<lambda>j. 1 / 2) 0) \<and>
   fst (getLatestMarketData
      \<lparr>rnd = \<lambda>j. 1 / 2, clock = \<lambda>j. 6000000, store_fails = \<lambda>k. False\<rparr> ''spy'' 10
      \<lparr>docs = [], rnd_calls = 0, clock_calls = 0, store_calls = 0, store_errors = 0,
         simulated_calls = 0\<rparr>)
     = drop 90 (map apply_setters (backfill_bars sampleVolatility ''spy'' 6000000 100 (\<lambda>j. 1 / 2) 0)) \<and>
   docs (snd (getLatestMarketData
      \<lparr>rnd = \<lambda>j. 1 / 2, clock = \<lambda>j. 6000000, store_fails = \<lambda>k. False\<rparr> ''spy'' 10
      \<lparr>docs = [\<lparr>symbol = ''SPY'', timestamp = 0, bopen = 450, high = 451, low = 449,
                  bclose = 450, volume = 1000, source = ''SIMULATED''\<rparr>],
         rnd_calls = 0, clock_calls = 0, store_calls = 0, store_errors = 0,
         simulated_calls = 0\<rparr>))
     = [\<lparr>symbol = ''SPY'', timestamp = 0, bopen = 450, high = 451, low = 449,
          bclose = 450, volume = 1000, source = ''SIMULATED''\<rparr>]"
proof -
  let ?e = "\<lparr>rnd = \<lambda>j. 1 / 2, clock = \<lambda>j. 6000000, store_fails = \<lambda>k. False\<rparr>"
  let ?w0 = "\<lparr>docs = [], rnd_calls = 0, clock_calls = 0, store_calls = 0, store_errors = 0,
              simulated_calls = 0\<rparr>"
  let ?w1 = "\<lparr>docs = [\<lparr>symbol = ''SPY'', timestamp = 0, bopen = 450, high = 451, low = 449,
                       bclose = 450, volume = 1000, source = ''SIMULATED''\<rparr>],
              rnd_calls = 0, clock_calls = 0, store_calls = 0, store_errors = 0,
              simulated_calls = 0\<rparr>"
  have c: "cast_symbol ''spy'' = ''SPY''"
    by (simp add: cast_symbol_def js_toUpperCase_def js_trim_def is_whitespace_def is_lower_def
          char_of_def bit_Suc_0_iff)
  have s: "route_symbol_match ''spy''"
    by (simp add: route_symbol_match_def is_upper_def is_lower_def is_digit_def)
  have r: "\<forall>j. 0 \<le> rnd ?e j \<and> rnd ?e j < 1" by simp
  have f0: "list_all (\<lambda>d. symbol d \<noteq> cast_symbol ''spy'') (docs ?w0)" by simp
  have f1: "list_ex (\<lambda>d. symbol d = cast_symbol ''spy'') (docs ?w1)" by (simp add: c)
  from read_writes_sample_bars[of "''spy''" 10 ?e ?w0, OF s _ _ r] f0
       read_writes_sample_bars[of "''spy''" 10 ?e ?w1, OF s _ _ r] f1
  show ?thesis by simp
qed

end
